theory Spec2Isabelle
  imports Main
begin

section \<open>FIRRTL inter-module constant propagation and dead code elimination\<close>

text \<open>
  A shallow embedding of \<^verbatim>\<open>lib/Dialect/FIRRTL/Transforms/IMConstProp.cpp\<close> and
  \<^verbatim>\<open>lib/Dialect/FIRRTL/Transforms/IMDeadCodeElim.cpp\<close>. Pass state is a record that
  every member function takes and returns; a failed \<^verbatim>\<open>cast<>\<close> or \<^verbatim>\<open>assert\<close> is the
  value \<open>None\<close>.
\<close>

subsection \<open>Attributes and the lattice value (IMConstProp.cpp, class LatticeValue)\<close>

text \<open>
  An \<^verbatim>\<open>llvm::APSInt\<close>: a bit width, a signedness flag and the raw bits
  (\<open>bits < 2 ^ bitWidth\<close>).
\<close>

record APSInt =
  bitWidth :: nat
  isUnsigned :: bool
  bits :: nat

text \<open>
  Attributes are uniqued by MLIR, so pointer equality is structural equality. An
  \<^verbatim>\<open>IntegerAttr\<close> holds an \<^verbatim>\<open>APSInt\<close>, or is the \<^verbatim>\<open>BoolAttr\<close> of a special
  constant (a clock or reset literal). \<open>OtherAttr\<close> stands for every attribute a fold
  hook may return that is not an \<^verbatim>\<open>IntegerAttr\<close>.
\<close>

datatype IntegerAttr = IntegerAttr APSInt | BoolAttr bool

datatype Attribute = IntAttr IntegerAttr | OtherAttr string

text \<open>
  \<^verbatim>\<open>llvm::PointerIntPair<Attribute, 2, Kind> valueAndTag\<close>. Every constructor and
  every \<^verbatim>\<open>mark*\<close> member stores a null pointer with the tags Unknown, Unwritten and
  Overdefined, so the pair is the tag alone there and the tag with its attribute for
  Constant.
\<close>

datatype LatticeValue = Unknown | Unwritten | Constant IntegerAttr | Overdefined

fun isUnknown :: "LatticeValue \<Rightarrow> bool" where
  "isUnknown Unknown = True"
| "isUnknown _ = False"

fun isUnwritten :: "LatticeValue \<Rightarrow> bool" where
  "isUnwritten Unwritten = True"
| "isUnwritten _ = False"

fun isConstant :: "LatticeValue \<Rightarrow> bool" where
  "isConstant (Constant _) = True"
| "isConstant _ = False"

fun isOverdefined :: "LatticeValue \<Rightarrow> bool" where
  "isOverdefined Overdefined = True"
| "isOverdefined _ = False"

text \<open>
  \<^verbatim>\<open>bool mergeIn(LatticeValue rhs)\<close>: the first component is the returned flag
  (the lattice value changed), the second is \<^verbatim>\<open>*this\<close> afterwards.
\<close>

definition mergeIn :: "LatticeValue \<Rightarrow> LatticeValue \<Rightarrow> bool \<times> LatticeValue" where
  "mergeIn this rhs =
     (if isOverdefined this \<or> isUnknown rhs then (False, this)
      else if isUnknown this then (True, rhs)
      else if isUnwritten rhs then (False, this)
      else if isUnwritten this then (True, rhs)
      else if this \<noteq> rhs then (True, Overdefined)
      else (False, this))"

subsection \<open>Types and field addressing\<close>

text \<open>
  The FIRRTL types the passes look at. A width of \<open>None\<close> is an unknown (uninferred)
  width. A bundle element is a name, its flip flag and its type.
\<close>

datatype FIRRTLBaseType =
    UIntType "nat option"
  | SIntType "nat option"
  | ClockType
  | ResetType
  | AsyncResetType
  | AnalogType "nat option"
  | BundleType "BundleElement list"
  | FVectorType FIRRTLBaseType nat
and BundleElement = BundleElement string bool FIRRTLBaseType

datatype FIRRTLType = BaseType FIRRTLBaseType | RefType FIRRTLBaseType

datatype Type = FIRRTL FIRRTLType | ForeignType

text \<open>
  Modelled from the spec: the members \<^verbatim>\<open>isGround\<close>, \<^verbatim>\<open>getPassiveType\<close> and
  \<^verbatim>\<open>getBitWidthOrSentinel\<close> of \<^verbatim>\<open>FIRRTLBaseType\<close> are declared with the types, not in
  the source files. A ground type is one that is no bundle and no vector; the passive
  type has every flip removed; the width of a ground type is \<open>-1\<close> when it is not
  known, and an aggregate has the width \<open>-2\<close>.
\<close>

fun isGround :: "FIRRTLBaseType \<Rightarrow> bool" where
  "isGround (BundleType _) = False"
| "isGround (FVectorType _ _) = False"
| "isGround _ = True"

fun getPassiveType :: "FIRRTLBaseType \<Rightarrow> FIRRTLBaseType"
  and getPassiveElements :: "BundleElement list \<Rightarrow> BundleElement list" where
  "getPassiveType (BundleType es) = BundleType (getPassiveElements es)"
| "getPassiveType (FVectorType t n) = FVectorType (getPassiveType t) n"
| "getPassiveType (UIntType w) = UIntType w"
| "getPassiveType (SIntType w) = SIntType w"
| "getPassiveType ClockType = ClockType"
| "getPassiveType ResetType = ResetType"
| "getPassiveType AsyncResetType = AsyncResetType"
| "getPassiveType (AnalogType w) = AnalogType w"
| "getPassiveElements [] = []"
| "getPassiveElements (BundleElement n f t # es) =
     BundleElement n False (getPassiveType t) # getPassiveElements es"

fun getBitWidthOrSentinel :: "FIRRTLBaseType \<Rightarrow> int" where
  "getBitWidthOrSentinel (UIntType w) = (case w of None \<Rightarrow> -1 | Some n \<Rightarrow> int n)"
| "getBitWidthOrSentinel (SIntType w) = (case w of None \<Rightarrow> -1 | Some n \<Rightarrow> int n)"
| "getBitWidthOrSentinel (AnalogType w) = (case w of None \<Rightarrow> -1 | Some n \<Rightarrow> int n)"
| "getBitWidthOrSentinel ClockType = 1"
| "getBitWidthOrSentinel ResetType = 1"
| "getBitWidthOrSentinel AsyncResetType = 1"
| "getBitWidthOrSentinel (BundleType _) = -2"
| "getBitWidthOrSentinel (FVectorType _ _) = -2"

text \<open>
  The local \<^verbatim>\<open>recurse\<close> of \<^verbatim>\<open>foreachFIRRTLGroundType\<close>: it threads the counter
  \<^verbatim>\<open>fieldID\<close> and calls \<^verbatim>\<open>fn\<close> at every ground leaf. The model returns the calls of
  \<^verbatim>\<open>fn\<close> in order, with the counter afterwards.
\<close>

fun recurse :: "FIRRTLBaseType \<Rightarrow> nat \<Rightarrow> (nat \<times> FIRRTLBaseType) list \<times> nat"
  and recurseBundle :: "BundleElement list \<Rightarrow> nat \<Rightarrow> (nat \<times> FIRRTLBaseType) list \<times> nat"
  and recurseVector :: "FIRRTLBaseType \<Rightarrow> nat \<Rightarrow> nat \<Rightarrow> (nat \<times> FIRRTLBaseType) list \<times> nat"
  where
  "recurse (BundleType es) fieldID = recurseBundle es fieldID"
| "recurse (FVectorType t n) fieldID = recurseVector t n fieldID"
| "recurse (UIntType w) fieldID = ([(fieldID, UIntType w)], fieldID)"
| "recurse (SIntType w) fieldID = ([(fieldID, SIntType w)], fieldID)"
| "recurse ClockType fieldID = ([(fieldID, ClockType)], fieldID)"
| "recurse ResetType fieldID = ([(fieldID, ResetType)], fieldID)"
| "recurse AsyncResetType fieldID = ([(fieldID, AsyncResetType)], fieldID)"
| "recurse (AnalogType w) fieldID = ([(fieldID, AnalogType w)], fieldID)"
| "recurseBundle [] fieldID = ([], fieldID)"
| "recurseBundle (BundleElement n f t # es) fieldID =
     (case recurse t (fieldID + 1) of (xs, fieldID') \<Rightarrow>
        (case recurseBundle es fieldID' of (ys, fieldID'') \<Rightarrow> (xs @ ys, fieldID'')))"
| "recurseVector t 0 fieldID = ([], fieldID)"
| "recurseVector t (Suc n) fieldID =
     (case recurse t (fieldID + 1) of (xs, fieldID') \<Rightarrow>
        (case recurseVector t n fieldID' of (ys, fieldID'') \<Rightarrow> (xs @ ys, fieldID'')))"

text \<open>
  \<^verbatim>\<open>foreachFIRRTLGroundType(FIRRTLType, fn)\<close>: a reference type is unwrapped, a
  ground type is the single leaf 0.
\<close>

definition foreachFIRRTLGroundType :: "FIRRTLType \<Rightarrow> (nat \<times> FIRRTLBaseType) list" where
  "foreachFIRRTLGroundType firrtlType =
     (let type = (case firrtlType of BaseType t \<Rightarrow> t | RefType t \<Rightarrow> t)
      in if isGround type then [(0, type)] else fst (recurse type 0))"

text \<open>\<^verbatim>\<open>type.cast<FIRRTLBaseType>()\<close>: asserts on every other type.\<close>

fun castFIRRTLBaseType :: "Type \<Rightarrow> FIRRTLBaseType option" where
  "castFIRRTLBaseType (FIRRTL (BaseType t)) = Some t"
| "castFIRRTLBaseType _ = None"

subsection \<open>Integer constants\<close>

text \<open>
  Modelled from the spec: \<^verbatim>\<open>extOrTruncZeroWidth\<close> of \<^verbatim>\<open>circt/Support/APInt.h\<close> and
  \<^verbatim>\<open>llvm::APSInt::extOrTrunc\<close> are not among the source files. Extending keeps the
  numeric value under the signedness of the source (zero extension when unsigned, sign
  extension when signed); truncating keeps the low bits; a zero-width source gives zero
  of the requested width.
\<close>

definition extOrTrunc :: "APSInt \<Rightarrow> nat \<Rightarrow> APSInt" where
  "extOrTrunc v width =
     (if bitWidth v < width then
        (if isUnsigned v \<or> bits v < 2 ^ (bitWidth v - 1)
         then v\<lparr>bitWidth := width\<rparr>
         else v\<lparr>bitWidth := width, bits := bits v + (2 ^ width - 2 ^ bitWidth v)\<rparr>)
      else if width < bitWidth v then v\<lparr>bitWidth := width, bits := bits v mod 2 ^ width\<rparr>
      else v)"

definition extOrTruncZeroWidth :: "APSInt \<Rightarrow> nat \<Rightarrow> APSInt" where
  "extOrTruncZeroWidth v width =
     (if bitWidth v \<noteq> 0 then extOrTrunc v width
      else \<lparr>bitWidth = width, isUnsigned = isUnsigned v, bits = 0\<rparr>)"

text \<open>The number an \<^verbatim>\<open>APSInt\<close> denotes: two's complement when signed.\<close>

definition getExtValue :: "APSInt \<Rightarrow> int" where
  "getExtValue v =
     (if isUnsigned v \<or> bits v < 2 ^ (bitWidth v - 1) then int (bits v)
      else int (bits v) - 2 ^ bitWidth v)"

subsection \<open>The IR the passes read\<close>

type_synonym BlockId = nat
type_synonym OpId = nat

text \<open>
  An SSA value is a block argument (a module port: the body block of the module and the
  port number) or a result of an operation. A \<^verbatim>\<open>FieldRef\<close> is a root value and a field
  ID.
\<close>

datatype Value = BlockArgument BlockId nat | OpResult OpId nat

type_synonym FieldRef = "Value \<times> nat"

definition getSubField :: "FieldRef \<Rightarrow> nat \<Rightarrow> FieldRef" where
  "getSubField fieldRef subFieldID = (fst fieldRef, snd fieldRef + subFieldID)"

datatype Direction = In | Out

datatype OpKind =
    WireOp | RegOp | RegResetOp | NodeOp
  | ConstantOp APSInt | SpecialConstantOp bool | InvalidValueOp
  | InstanceOp | MemOp | FConnectLike
  | SubfieldOp | SubindexOp | SubaccessOp
  | RefSendOp | RefResolveOp
  | UnrealizedConversionCastOp | VerbatimExprOp | VerbatimWireOp
  | OtherOp

text \<open>The side-effect classes \<^verbatim>\<open>hasUnknownSideEffect\<close> tells apart.\<close>

datatype MemoryEffects = MemoryEffectFree | AllocateOnly | ReadOnly | UnknownEffect

record Operation =
  opKind :: OpKind
  getOperands :: "Value list"
  getNumResults :: nat
  getBlock :: BlockId
  opHasDontTouch :: bool
  annotationsEmpty :: bool
  hasDroppableName :: bool
  getInnerSym :: "string option"
  memoryEffects :: MemoryEffects
  wouldOpBeTriviallyDead :: bool

text \<open>What \<^verbatim>\<open>instanceGraph->getReferencedModule\<close> finds: a module with a body, or an
  external module, which only has port directions.\<close>

datatype ModuleLike = FModuleOp BlockId | FExtModuleOp "Direction list"

record Port =
  portDirection :: Direction
  portHasDontTouch :: bool

record FModule =
  isPublic :: bool
  moduleAnnotationsEmpty :: bool
  getPorts :: "Port list"
  getBody :: "OpId list"

datatype OpFoldResult = FoldAttribute Attribute | FoldValue Value

text \<open>
  The IR as the analyses see it. \<^verbatim>\<open>getFieldRefFromValue\<close> (FIRRTLUtils), the fold hooks
  of the operations (\<^verbatim>\<open>op->fold\<close>, \<open>None\<close> when it fails) and the instance graph
  (the module an instance refers to, the modules in post order) are outside the two files
  and are taken as they come. \<open>circuitModules\<close> are the \<^verbatim>\<open>FModuleOp\<close>s of the circuit
  in order; a module is named by its body block.
\<close>

record IR =
  getOp :: "OpId \<Rightarrow> Operation"
  getType :: "Value \<Rightarrow> Type"
  getFieldRefFromValue :: "Value \<Rightarrow> FieldRef"
  getReferencedModule :: "OpId \<Rightarrow> ModuleLike"
  opFold :: "OpId \<Rightarrow> Attribute option list \<Rightarrow> OpFoldResult list option"
  getUsers :: "Value \<Rightarrow> OpId list"
  getModule :: "BlockId \<Rightarrow> FModule"
  circuitModules :: "BlockId list"
  postOrderModules :: "BlockId list"

definition getResults :: "OpId \<Rightarrow> Operation \<Rightarrow> Value list" where
  "getResults opId op = map (OpResult opId) [0 ..< getNumResults op]"

definition getPortDirection :: "IR \<Rightarrow> ModuleLike \<Rightarrow> nat \<Rightarrow> Direction option" where
  "getPortDirection ir m n =
     (case m of
        FModuleOp b \<Rightarrow>
          (if n < length (getPorts (getModule ir b))
           then Some (portDirection (getPorts (getModule ir b) ! n)) else None)
      | FExtModuleOp ds \<Rightarrow> (if n < length ds then Some (ds ! n) else None))"

definition isWireOrReg :: "Operation \<Rightarrow> bool" where
  "isWireOrReg op = (opKind op = WireOp \<or> opKind op = RegResetOp \<or> opKind op = RegOp)"


subsection \<open>IMConstProp: pass state and lattice updates\<close>

text \<open>
  The members of \<^verbatim>\<open>IMConstPropPass\<close>, with the diagnostics it has emitted. The back of
  \<^verbatim>\<open>changedLatticeValueWorklist\<close> is the end of the list.
\<close>

record IMConstPropPass =
  latticeValues :: "FieldRef \<rightharpoonup> LatticeValue"
  executableBlocks :: "BlockId set"
  changedLatticeValueWorklist :: "FieldRef list"
  fieldRefToUsers :: "FieldRef \<Rightarrow> OpId list"
  resultPortToInstanceResultMapping :: "Value \<Rightarrow> Value list"
  emittedErrors :: "(OpId \<times> string) list"

text \<open>\<^verbatim>\<open>latticeValues[value]\<close>: \<^verbatim>\<open>DenseMap::operator[]\<close> inserts a default (Unknown)
  entry for a missing key.\<close>

definition latticeValuesAt :: "FieldRef \<Rightarrow> IMConstPropPass \<Rightarrow> LatticeValue \<times> IMConstPropPass" where
  "latticeValuesAt value st =
     (case latticeValues st value of
        Some entry \<Rightarrow> (entry, st)
      | None \<Rightarrow> (Unknown, st\<lparr>latticeValues := (latticeValues st)(value \<mapsto> Unknown)\<rparr>))"

definition isOverdefinedKey :: "IMConstPropPass \<Rightarrow> FieldRef \<Rightarrow> bool" where
  "isOverdefinedKey st value =
     (case latticeValues st value of None \<Rightarrow> False | Some entry \<Rightarrow> isOverdefined entry)"

definition markOverdefined :: "FieldRef \<Rightarrow> IMConstPropPass \<Rightarrow> IMConstPropPass" where
  "markOverdefined value st =
     (case latticeValuesAt value st of (entry, st') \<Rightarrow>
        if \<not> isOverdefined entry
        then st'\<lparr>latticeValues := (latticeValues st')(value \<mapsto> Overdefined),
                 changedLatticeValueWorklist := changedLatticeValueWorklist st' @ [value]\<rparr>
        else st')"

definition markOverdefinedValue :: "IR \<Rightarrow> Value \<Rightarrow> IMConstPropPass \<Rightarrow> IMConstPropPass option" where
  "markOverdefinedValue ir value st =
     (let fieldRef = getFieldRefFromValue ir value in
      case castFIRRTLBaseType (getType ir value) of
        None \<Rightarrow> None
      | Some type \<Rightarrow>
          Some (fold (\<lambda>(fieldID, _). markOverdefined (getSubField fieldRef fieldID))
                  (foreachFIRRTLGroundType (BaseType type)) st))"

definition markUnwritten :: "FieldRef \<Rightarrow> IMConstPropPass \<Rightarrow> IMConstPropPass" where
  "markUnwritten value st =
     (case latticeValuesAt value st of (entry, st') \<Rightarrow>
        if \<not> isUnwritten entry
        then st'\<lparr>latticeValues := (latticeValues st')(value \<mapsto> Unwritten),
                 changedLatticeValueWorklist := changedLatticeValueWorklist st' @ [value]\<rparr>
        else st')"

text \<open>\<^verbatim>\<open>markUnwritten(Value)\<close>, as written: its callback calls
  \<^verbatim>\<open>markOverdefined(fieldRef.getSubField(fieldID))\<close>.\<close>

definition markUnwrittenValue :: "IR \<Rightarrow> Value \<Rightarrow> IMConstPropPass \<Rightarrow> IMConstPropPass option" where
  "markUnwrittenValue ir value st =
     (let fieldRef = getFieldRefFromValue ir value in
      case castFIRRTLBaseType (getType ir value) of
        None \<Rightarrow> None
      | Some type \<Rightarrow>
          Some (fold (\<lambda>(fieldID, _). markOverdefined (getSubField fieldRef fieldID))
                  (foreachFIRRTLGroundType (BaseType type)) st))"

text \<open>\<^verbatim>\<open>mergeLatticeValue(Key value, LatticeValue source)\<close>, with the three-argument
  overload it calls written in.\<close>

definition mergeLatticeValue :: "FieldRef \<Rightarrow> LatticeValue \<Rightarrow> IMConstPropPass \<Rightarrow> IMConstPropPass" where
  "mergeLatticeValue value source st =
     (if isUnknown source then st
      else case latticeValuesAt value st of (valueEntry, st') \<Rightarrow>
        (case mergeIn valueEntry source of (changed, valueEntry') \<Rightarrow>
           if changed
           then st'\<lparr>latticeValues := (latticeValues st')(value \<mapsto> valueEntry'),
                    changedLatticeValueWorklist := changedLatticeValueWorklist st' @ [value]\<rparr>
           else st'))"

text \<open>\<^verbatim>\<open>mergeLatticeValue(Key result, Key from)\<close>.\<close>

definition mergeLatticeValueKey :: "FieldRef \<Rightarrow> FieldRef \<Rightarrow> IMConstPropPass \<Rightarrow> IMConstPropPass" where
  "mergeLatticeValueKey result from st =
     (case latticeValues st from of
        None \<Rightarrow> st
      | Some source \<Rightarrow> mergeLatticeValue result source st)"

text \<open>\<^verbatim>\<open>mergeLatticeValue(Value result, Value from)\<close>.\<close>

definition mergeLatticeValueValue :: "IR \<Rightarrow> Value \<Rightarrow> Value \<Rightarrow> IMConstPropPass \<Rightarrow> IMConstPropPass" where
  "mergeLatticeValueValue ir result from st =
     (let fieldRefFrom = getFieldRefFromValue ir from in
      case latticeValues st fieldRefFrom of
        None \<Rightarrow> st
      | Some _ \<Rightarrow>
          (let fieldRefResult = getFieldRefFromValue ir result in
           case getType ir result of
             ForeignType \<Rightarrow> mergeLatticeValueKey fieldRefResult (getFieldRefFromValue ir from) st
           | FIRRTL type \<Rightarrow>
               fold (\<lambda>(fieldID, _). mergeLatticeValueKey (getSubField fieldRefResult fieldID)
                                      (getSubField fieldRefFrom fieldID))
                 (foreachFIRRTLGroundType type) st))"

definition setLatticeValue :: "FieldRef \<Rightarrow> LatticeValue \<Rightarrow> IMConstPropPass \<Rightarrow> IMConstPropPass" where
  "setLatticeValue value source st =
     (if isUnknown source then st
      else case latticeValuesAt value st of (valueEntry, st') \<Rightarrow>
        if valueEntry \<noteq> source
        then st'\<lparr>changedLatticeValueWorklist := changedLatticeValueWorklist st' @ [value],
                 latticeValues := (latticeValues st')(value \<mapsto> source)\<rparr>
        else st')"

text \<open>
  \<^verbatim>\<open>getExtendedLatticeValue(value, destType, allowTruncation)\<close>. The comparison
  \<^verbatim>\<open>getBitWidth() == (unsigned)destWidth\<close> and the call of \<^verbatim>\<open>extOrTruncZeroWidth\<close>
  convert the 32-bit \<^verbatim>\<open>destWidth\<close> to unsigned.
\<close>

definition getExtendedLatticeValue ::
  "IMConstPropPass \<Rightarrow> FieldRef \<Rightarrow> FIRRTLBaseType \<Rightarrow> bool \<Rightarrow> LatticeValue" where
  "getExtendedLatticeValue st value destType allowTruncation =
     (case latticeValues st value of
        None \<Rightarrow> Unknown
      | Some result \<Rightarrow>
          (case result of
             Constant constant \<Rightarrow>
               (case constant of
                  BoolAttr boolAttr \<Rightarrow> Constant (BoolAttr boolAttr)
                | IntegerAttr resultConstant \<Rightarrow>
                    (let destWidth = getBitWidthOrSentinel destType in
                     if destWidth = -1 then Overdefined
                     else if bitWidth resultConstant = nat (destWidth mod 2 ^ 32) then result
                     else Constant (IntegerAttr
                            (extOrTruncZeroWidth resultConstant (nat (destWidth mod 2 ^ 32))))))
           | _ \<Rightarrow> result))"

text \<open>The pass state of a freshly constructed \<^verbatim>\<open>IMConstPropPass\<close>.\<close>

definition emptyPass :: IMConstPropPass where
  "emptyPass = \<lparr>latticeValues = Map.empty, executableBlocks = {},
     changedLatticeValueWorklist = [], fieldRefToUsers = (\<lambda>_. []),
     resultPortToInstanceResultMapping = (\<lambda>_. []), emittedErrors = []\<rparr>"

subsection \<open>IMConstProp: visiting operations\<close>

text \<open>A \<^verbatim>\<open>for\<close> loop whose body may hit an assertion.\<close>

fun forEachM :: "('a \<Rightarrow> 's \<Rightarrow> 's option) \<Rightarrow> 'a list \<Rightarrow> 's \<Rightarrow> 's option" where
  "forEachM f [] st = Some st"
| "forEachM f (x # xs) st = (case f x st of None \<Rightarrow> None | Some st' \<Rightarrow> forEachM f xs st')"

definition markWireOrRegOp :: "IR \<Rightarrow> OpId \<Rightarrow> IMConstPropPass \<Rightarrow> IMConstPropPass option" where
  "markWireOrRegOp ir wireOrReg st =
     (if getNumResults (getOp ir wireOrReg) = 0 then None
      else
        let resultValue = OpResult wireOrReg 0 in
        case getType ir resultValue of
          ForeignType \<Rightarrow> markOverdefinedValue ir resultValue st
        | FIRRTL type \<Rightarrow>
            (case type of
               RefType _ \<Rightarrow> None
             | BaseType baseType \<Rightarrow>
                 if \<not> isGround (getPassiveType baseType) then markOverdefinedValue ir resultValue st
                 else if opHasDontTouch (getOp ir wireOrReg) then markOverdefinedValue ir resultValue st
                 else markUnwrittenValue ir resultValue st))"

text \<open>The lambda \<^verbatim>\<open>propagateElementLattice\<close> of \<^verbatim>\<open>visitConnectLike\<close>, called once for
  every ground leaf of the destination type.\<close>

definition propagateElementLattice ::
  "IR \<Rightarrow> OpId \<Rightarrow> FieldRef \<Rightarrow> FieldRef \<Rightarrow> nat \<times> FIRRTLBaseType \<Rightarrow> IMConstPropPass \<Rightarrow> IMConstPropPass" where
  "propagateElementLattice ir connect fieldRefSrc fieldRefDest leaf st =
     (case leaf of (fieldID, destTypeFIRRTL) \<Rightarrow>
        let destType = getPassiveType destTypeFIRRTL;
            fieldRefDestConnected = getSubField fieldRefDest fieldID;
            srcValue = getExtendedLatticeValue st (getSubField fieldRefSrc fieldID) destType False
        in
        if isUnknown srcValue then st
        else
          (case fst fieldRefDest of
             BlockArgument b n \<Rightarrow>
               mergeLatticeValue fieldRefDestConnected srcValue
                 (fold (\<lambda>userOfResultPort.
                          mergeLatticeValue (userOfResultPort, snd fieldRefDestConnected) srcValue)
                    (resultPortToInstanceResultMapping st (BlockArgument b n)) st)
           | OpResult destOp resultNumber \<Rightarrow>
               if isWireOrReg (getOp ir destOp)
               then mergeLatticeValue fieldRefDestConnected srcValue st
               else if opKind (getOp ir destOp) = InstanceOp then
                 (let st' = mergeLatticeValue fieldRefDestConnected srcValue st in
                  case getReferencedModule ir destOp of
                    FModuleOp module \<Rightarrow>
                      mergeLatticeValue
                        (BlockArgument module resultNumber, snd fieldRefDestConnected) srcValue st'
                  | FExtModuleOp _ \<Rightarrow> st')
               else if opKind (getOp ir destOp) = MemOp then st
               else st\<lparr>emittedErrors := emittedErrors st
                         @ [(connect, ''connectlike operation unhandled by IMConstProp'')]\<rparr>))"

text \<open>\<^verbatim>\<open>visitConnectLike\<close>: the destination is operand 0, the source operand 1.\<close>

definition visitConnectLike :: "IR \<Rightarrow> OpId \<Rightarrow> IMConstPropPass \<Rightarrow> IMConstPropPass option" where
  "visitConnectLike ir connect st =
     (case getOperands (getOp ir connect) of
        dest # src # _ \<Rightarrow>
          (case getType ir dest of
             ForeignType \<Rightarrow>
               (case markOverdefinedValue ir src st of
                  None \<Rightarrow> None
                | Some st' \<Rightarrow> markOverdefinedValue ir dest st')
           | FIRRTL destTypeFIRRTL \<Rightarrow>
               (let baseType = (case destTypeFIRRTL of RefType t \<Rightarrow> t | BaseType t \<Rightarrow> t);
                    fieldRefSrc = getFieldRefFromValue ir src;
                    fieldRefDest = getFieldRefFromValue ir dest
                in Some (fold (propagateElementLattice ir connect fieldRefSrc fieldRefDest)
                           (foreachFIRRTLGroundType (BaseType baseType)) st)))
      | _ \<Rightarrow> None)"

text \<open>\<^verbatim>\<open>getConstant().getValue().isZero()\<close>.\<close>

fun isZero :: "IntegerAttr \<Rightarrow> bool" where
  "isZero (IntegerAttr v) = (bits v = 0)"
| "isZero (BoolAttr b) = (\<not> b)"

text \<open>\<^verbatim>\<open>visitRegResetOp\<close>: the operands are the clock, the reset signal and the reset
  value.\<close>

definition visitRegResetOp :: "IR \<Rightarrow> OpId \<Rightarrow> IMConstPropPass \<Rightarrow> IMConstPropPass option" where
  "visitRegResetOp ir regReset st =
     (case getOperands (getOp ir regReset) of
        clock # resetSignal # resetValue # _ \<Rightarrow>
          (let fieldRefReset = getFieldRefFromValue ir resetValue in
           case castFIRRTLBaseType (getType ir resetSignal) of
             None \<Rightarrow> None
           | Some resetSignalType \<Rightarrow>
               (let enable = getExtendedLatticeValue st (getFieldRefFromValue ir resetSignal)
                               resetSignalType True
                in
                if isOverdefined enable
                   \<or> (case enable of Constant c \<Rightarrow> \<not> isZero c | _ \<Rightarrow> False)
                then
                  (case castFIRRTLBaseType (getType ir (OpResult regReset 0)) of
                     None \<Rightarrow> None
                   | Some regType \<Rightarrow>
                       Some (fold (\<lambda>(fieldID, destTypeFIRRTL) s.
                                     mergeLatticeValue (OpResult regReset 0, fieldID)
                                       (getExtendedLatticeValue s
                                          (getSubField fieldRefReset fieldID) destTypeFIRRTL True) s)
                               (foreachFIRRTLGroundType (BaseType regType)) st))
                else Some st))
      | _ \<Rightarrow> None)"

text \<open>\<^verbatim>\<open>visitRefSend\<close> and \<^verbatim>\<open>visitRefResolve\<close>: the result takes the lattice value of
  the operand.\<close>

definition visitRefSend :: "IR \<Rightarrow> OpId \<Rightarrow> IMConstPropPass \<Rightarrow> IMConstPropPass option" where
  "visitRefSend ir send st =
     (case getOperands (getOp ir send) of
        base # _ \<Rightarrow> Some (mergeLatticeValueValue ir (OpResult send 0) base st)
      | [] \<Rightarrow> None)"

definition visitRefResolve :: "IR \<Rightarrow> OpId \<Rightarrow> IMConstPropPass \<Rightarrow> IMConstPropPass option" where
  "visitRefResolve ir resolve st =
     (case getOperands (getOp ir resolve) of
        ref # _ \<Rightarrow> Some (mergeLatticeValueValue ir (OpResult resolve 0) ref st)
      | [] \<Rightarrow> None)"

definition visitNode :: "IR \<Rightarrow> OpId \<Rightarrow> IMConstPropPass \<Rightarrow> IMConstPropPass option" where
  "visitNode ir node st =
     (if opHasDontTouch (getOp ir node) \<or> \<not> annotationsEmpty (getOp ir node)
      then markOverdefinedValue ir (OpResult node 0) st
      else case getOperands (getOp ir node) of
             input # _ \<Rightarrow> Some (mergeLatticeValueValue ir (OpResult node 0) input st)
           | [] \<Rightarrow> None)"

text \<open>
  The operand loop of \<^verbatim>\<open>visitOperation\<close>: \<open>None\<close> in the second component is the
  early \<^verbatim>\<open>return\<close> at an Unknown operand. \<^verbatim>\<open>latticeValues[...]\<close> inserts the missing
  entries on the way.
\<close>

fun collectOperandConstants ::
  "IR \<Rightarrow> Value list \<Rightarrow> IMConstPropPass \<Rightarrow> IMConstPropPass \<times> Attribute option list option" where
  "collectOperandConstants ir [] st = (st, Some [])"
| "collectOperandConstants ir (operand # rest) st =
     (case latticeValuesAt (getFieldRefFromValue ir operand) st of (operandLattice, st') \<Rightarrow>
        if isUnknown operandLattice then (st', None)
        else
          (case collectOperandConstants ir rest st' of
             (st'', None) \<Rightarrow> (st'', None)
           | (st'', Some operandConstants) \<Rightarrow>
               (st'', Some ((case operandLattice of
                               Constant c \<Rightarrow> Some (IntAttr c)
                             | _ \<Rightarrow> None) # operandConstants))))"

text \<open>The body of the last loop of \<^verbatim>\<open>visitOperation\<close>: the fold result of result
  \<open>i\<close> is set, not merged.\<close>

definition adoptFoldResult :: "IR \<Rightarrow> OpId \<Rightarrow> nat \<times> OpFoldResult \<Rightarrow> IMConstPropPass \<Rightarrow> IMConstPropPass" where
  "adoptFoldResult ir opId r st =
     (case r of (i, foldResult) \<Rightarrow>
        (case (case foldResult of
                 FoldAttribute foldAttr \<Rightarrow>
                   (case foldAttr of
                      IntAttr intAttr \<Rightarrow> (Constant intAttr, st)
                    | OtherAttr _ \<Rightarrow> (Overdefined, st))
               | FoldValue v \<Rightarrow> latticeValuesAt (getFieldRefFromValue ir v) st)
         of (resultLattice, st') \<Rightarrow>
              setLatticeValue (getFieldRefFromValue ir (OpResult opId i)) resultLattice st'))"

definition visitOperation :: "IR \<Rightarrow> OpId \<Rightarrow> IMConstPropPass \<Rightarrow> IMConstPropPass option" where
  "visitOperation ir opId st =
     (let op = getOp ir opId in
      if opKind op = FConnectLike then visitConnectLike ir opId st
      else if opKind op = RegResetOp then visitRegResetOp ir opId st
      else if opKind op = RefSendOp then visitRefSend ir opId st
      else if opKind op = RefResolveOp then visitRefResolve ir opId st
      else if opKind op = NodeOp then visitNode ir opId st
      else if opKind op = RegOp then Some st
      else if list_all (\<lambda>value. isOverdefinedKey st (getFieldRefFromValue ir value))
                (getResults opId op) then Some st
      else
        (case collectOperandConstants ir (getOperands op) st of
           (st', None) \<Rightarrow> Some st'
         | (st', Some operandConstants) \<Rightarrow>
             (case opFold ir opId operandConstants of
                None \<Rightarrow> forEachM (markOverdefinedValue ir) (getResults opId op) st'
              | Some foldResults \<Rightarrow>
                  if foldResults = [] then None
                  else if length foldResults \<noteq> getNumResults op then None
                  else Some (fold (adoptFoldResult ir opId) (enumerate 0 foldResults) st'))))"

subsection \<open>IMConstProp: the initial scan and the fixpoint\<close>

definition markConstantOp :: "IR \<Rightarrow> OpId \<Rightarrow> IMConstPropPass \<Rightarrow> IMConstPropPass option" where
  "markConstantOp ir constant st =
     (case opKind (getOp ir constant) of
        ConstantOp v \<Rightarrow>
          Some (mergeLatticeValue (getFieldRefFromValue ir (OpResult constant 0))
                  (Constant (IntegerAttr v)) st)
      | _ \<Rightarrow> None)"

definition markSpecialConstantOp :: "IR \<Rightarrow> OpId \<Rightarrow> IMConstPropPass \<Rightarrow> IMConstPropPass option" where
  "markSpecialConstantOp ir specialConstant st =
     (case opKind (getOp ir specialConstant) of
        SpecialConstantOp b \<Rightarrow>
          Some (mergeLatticeValue (getFieldRefFromValue ir (OpResult specialConstant 0))
                  (Constant (BoolAttr b)) st)
      | _ \<Rightarrow> None)"

definition markInvalidValueOp :: "IR \<Rightarrow> OpId \<Rightarrow> IMConstPropPass \<Rightarrow> IMConstPropPass option" where
  "markInvalidValueOp ir invalid st = markOverdefinedValue ir (OpResult invalid 0) st"

definition markMemOp :: "IR \<Rightarrow> OpId \<Rightarrow> IMConstPropPass \<Rightarrow> IMConstPropPass option" where
  "markMemOp ir mem st = forEachM (markOverdefinedValue ir) (getResults mem (getOp ir mem)) st"

text \<open>
  \<^verbatim>\<open>markInstanceOp\<close>; as for the liveness pass, the call of \<^verbatim>\<open>markBlockExecutable\<close> on
  the body of the referenced module is the parameter \<open>markBlock\<close>.
\<close>

definition markInstanceOp ::
  "IR \<Rightarrow> (BlockId \<Rightarrow> IMConstPropPass \<Rightarrow> IMConstPropPass option) \<Rightarrow> OpId
     \<Rightarrow> IMConstPropPass \<Rightarrow> IMConstPropPass option" where
  "markInstanceOp ir markBlock instance st =
     (case getReferencedModule ir instance of
        FExtModuleOp ds \<Rightarrow>
          forEachM
            (\<lambda>resultNo s.
               case getPortDirection ir (FExtModuleOp ds) resultNo of
                 None \<Rightarrow> None
               | Some In \<Rightarrow> Some s
               | Some Out \<Rightarrow> markOverdefinedValue ir (OpResult instance resultNo) s)
            [0 ..< getNumResults (getOp ir instance)] st
      | FModuleOp fModule \<Rightarrow>
          (case markBlock fModule st of
             None \<Rightarrow> None
           | Some st1 \<Rightarrow>
               forEachM
                 (\<lambda>resultNo s.
                    case getPortDirection ir (FModuleOp fModule) resultNo of
                      None \<Rightarrow> None
                    | Some In \<Rightarrow> Some s
                    | Some Out \<Rightarrow>
                        (let instancePortVal = OpResult instance resultNo;
                             modulePortVal = BlockArgument fModule resultNo
                         in Some (mergeLatticeValueValue ir instancePortVal modulePortVal
                                    (s\<lparr>resultPortToInstanceResultMapping :=
                                         (resultPortToInstanceResultMapping s)
                                           (modulePortVal :=
                                              resultPortToInstanceResultMapping s modulePortVal
                                              @ [instancePortVal])\<rparr>))))
                 [0 ..< getNumResults (getOp ir instance)] st1))"

text \<open>\<^verbatim>\<open>fieldRefToUsers[key].push_back(&op)\<close>.\<close>

definition addUser :: "FieldRef \<Rightarrow> OpId \<Rightarrow> IMConstPropPass \<Rightarrow> IMConstPropPass" where
  "addUser key opId st =
     st\<lparr>fieldRefToUsers := (fieldRefToUsers st)(key := fieldRefToUsers st key @ [opId])\<rparr>"

text \<open>The second half of the loop body of \<^verbatim>\<open>markBlockExecutable\<close>: the operation is
  recorded as a user of every ground leaf of each of its FIRRTL-typed operands.\<close>

definition indexOperand :: "IR \<Rightarrow> OpId \<Rightarrow> Value \<Rightarrow> IMConstPropPass \<Rightarrow> IMConstPropPass" where
  "indexOperand ir opId operand st =
     (case getType ir operand of
        ForeignType \<Rightarrow> st
      | FIRRTL firrtlType \<Rightarrow>
          fold (\<lambda>leaf. addUser (getSubField (getFieldRefFromValue ir operand) (fst leaf)) opId)
            (foreachFIRRTLGroundType firrtlType) st)"

definition indexOperands :: "IR \<Rightarrow> OpId \<Rightarrow> IMConstPropPass \<Rightarrow> IMConstPropPass" where
  "indexOperands ir opId st = fold (indexOperand ir opId) (getOperands (getOp ir opId)) st"

text \<open>The loop body of \<^verbatim>\<open>markBlockExecutable\<close>.\<close>

definition markOp ::
  "IR \<Rightarrow> (BlockId \<Rightarrow> IMConstPropPass \<Rightarrow> IMConstPropPass option) \<Rightarrow> OpId
     \<Rightarrow> IMConstPropPass \<Rightarrow> IMConstPropPass option" where
  "markOp ir markBlock opId st =
     (case (let op = getOp ir opId in
            if isWireOrReg op then markWireOrRegOp ir opId st
            else case opKind op of
                   ConstantOp _ \<Rightarrow> markConstantOp ir opId st
                 | SpecialConstantOp _ \<Rightarrow> markSpecialConstantOp ir opId st
                 | InvalidValueOp \<Rightarrow> markInvalidValueOp ir opId st
                 | InstanceOp \<Rightarrow> markInstanceOp ir markBlock opId st
                 | MemOp \<Rightarrow> markMemOp ir opId st
                 | UnrealizedConversionCastOp \<Rightarrow>
                     forEachM (markOverdefinedValue ir) (getResults opId op) st
                 | VerbatimExprOp \<Rightarrow> markOverdefinedValue ir (OpResult opId 0) st
                 | VerbatimWireOp \<Rightarrow> markOverdefinedValue ir (OpResult opId 0) st
                 | _ \<Rightarrow> Some st) of
        None \<Rightarrow> None
      | Some st' \<Rightarrow> Some (indexOperands ir opId st'))"

text \<open>\<^verbatim>\<open>markBlockExecutable\<close>; the first argument bounds the depth of the recursion
  through the instances.\<close>

fun markBlockExecutable ::
  "IR \<Rightarrow> nat \<Rightarrow> BlockId \<Rightarrow> IMConstPropPass \<Rightarrow> IMConstPropPass option" where
  "markBlockExecutable ir 0 block st =
     (if block \<in> executableBlocks st then Some st else None)"
| "markBlockExecutable ir (Suc depth) block st =
     (if block \<in> executableBlocks st then Some st
      else
        case forEachM
               (\<lambda>(argNo, port) s.
                  if portHasDontTouch port
                  then markOverdefinedValue ir (BlockArgument block argNo) s else Some s)
               (enumerate 0 (getPorts (getModule ir block)))
               (st\<lparr>executableBlocks := insert block (executableBlocks st)\<rparr>) of
          None \<Rightarrow> None
        | Some st1 \<Rightarrow>
            forEachM (markOp ir (markBlockExecutable ir depth))
              (getBody (getModule ir block)) st1)"

text \<open>The first loop of \<^verbatim>\<open>runOnOperation\<close>: the body of every public module is marked
  executable and its ports Overdefined.\<close>

definition markPublicPorts :: "IR \<Rightarrow> nat \<Rightarrow> IMConstPropPass \<Rightarrow> IMConstPropPass option" where
  "markPublicPorts ir depth st =
     forEachM
       (\<lambda>module s.
          if isPublic (getModule ir module) then
            (case markBlockExecutable ir depth module s of
               None \<Rightarrow> None
             | Some s' \<Rightarrow>
                 forEachM (\<lambda>argNo. markOverdefinedValue ir (BlockArgument module argNo))
                   [0 ..< length (getPorts (getModule ir module))] s')
          else Some s)
       (circuitModules ir) st"

text \<open>
  The body of the worklist loop of \<^verbatim>\<open>runOnOperation\<close>, for a worklist that is not
  empty: \<^verbatim>\<open>pop_back_val\<close>, then a visit of every user of the changed key that is in an
  executable block.
\<close>

definition visitChanged :: "IR \<Rightarrow> IMConstPropPass \<Rightarrow> IMConstPropPass option" where
  "visitChanged ir st =
     (let changedKey = last (changedLatticeValueWorklist st);
          st1 = st\<lparr>changedLatticeValueWorklist := butlast (changedLatticeValueWorklist st)\<rparr>
      in forEachM
           (\<lambda>user s.
              if getBlock (getOp ir user) \<in> executableBlocks s
              then visitOperation ir user s else Some s)
           (fieldRefToUsers st1 changedKey) st1)"

text \<open>
  The worklist loop of \<^verbatim>\<open>runOnOperation\<close>, cut off after \<open>n\<close> iterations: the state
  at the head of the loop after at most \<open>n\<close> iterations.
\<close>

fun propagate :: "IR \<Rightarrow> nat \<Rightarrow> IMConstPropPass \<Rightarrow> IMConstPropPass option" where
  "propagate ir 0 st = Some st"
| "propagate ir (Suc n) st =
     (if changedLatticeValueWorklist st = [] then Some st
      else case visitChanged ir st of
             None \<Rightarrow> None
           | Some st2 \<Rightarrow> propagate ir n st2)"


subsection \<open>IMConstProp: rewriting a module body\<close>

text \<open>
  What \<^verbatim>\<open>rewriteModuleBody\<close> changes: the IR (operands, the operations of the body,
  new operations and the types of their results), the pool of materialised constants and
  the two statistics. \<open>nextOpId\<close> names the next operation the builder creates; it is
  larger than every operation in the IR. \<^verbatim>\<open>constPool\<close> is a local variable of
  \<^verbatim>\<open>rewriteModuleBody\<close>: every call starts with an empty pool.
\<close>

record Rewriter =
  rwIR :: IR
  constPool :: "(IntegerAttr \<times> Type) \<rightharpoonup> OpId"
  nextOpId :: OpId
  numErasedOp :: nat
  numFoldedOp :: nat



text \<open>\<^verbatim>\<open>op.use_empty()\<close>: no operation of the block has a result of \<open>opId\<close> as an
  operand (the values of a module body are used in that body only).\<close>

definition use_empty :: "BlockId \<Rightarrow> OpId \<Rightarrow> Rewriter \<Rightarrow> bool" where
  "use_empty block opId rw =
     (\<forall>user \<in> set (getBody (getModule (rwIR rw) block)).
        \<forall>operand \<in> set (getOperands (getOp (rwIR rw) user)).
          (case operand of OpResult definingOp _ \<Rightarrow> definingOp \<noteq> opId | BlockArgument _ _ \<Rightarrow> True))"


text \<open>
  The builder creates an operation with one result of the given type and no operands,
  before the operation \<open>insertionPoint\<close> or, for \<open>None\<close>, at the start of the
  block.
\<close>

fun insertBefore :: "OpId \<Rightarrow> OpId \<Rightarrow> OpId list \<Rightarrow> OpId list" where
  "insertBefore new anchor [] = [new]"
| "insertBefore new anchor (x # xs) =
     (if x = anchor then new # x # xs else x # insertBefore new anchor xs)"










subsection \<open>IMDeadCodeElim: pass state and liveness updates\<close>

text \<open>
  The members of \<^verbatim>\<open>IMDeadCodeElimPass\<close> (the two that share a name with members of
  \<^verbatim>\<open>IMConstPropPass\<close> carry the suffix DCE). The back of \<^verbatim>\<open>valueWorklist\<close> is the end
  of the list. \<^verbatim>\<open>symbolWorklist\<close>, \<^verbatim>\<open>innerSymbolWorklist\<close> and \<^verbatim>\<open>liveSymbols\<close> are left
  out: nothing in the file writes to them, and neither to \<^verbatim>\<open>liveInnerSymbols\<close>, which
  \<^verbatim>\<open>markInstanceOp\<close> reads.
\<close>

record IMDeadCodeElimPass =
  executableBlocksDCE :: "BlockId set"
  resultPortToInstanceResultMappingDCE :: "Value \<Rightarrow> Value list"
  valueWorklist :: "Value list"
  liveValues :: "Value set"
  liveInstances :: "OpId set"
  liveInnerSymbols :: "(BlockId \<times> string) set"
  undeletableBlocks :: "BlockId set"
  lazyLiveInputPorts :: "OpId \<Rightarrow> Value list"

definition hasUnknownSideEffect :: "Operation \<Rightarrow> bool" where
  "hasUnknownSideEffect op = (memoryEffects op = UnknownEffect)"

definition isDeclaration :: "Operation \<Rightarrow> bool" where
  "isDeclaration op =
     (opKind op = WireOp \<or> opKind op = RegResetOp \<or> opKind op = RegOp
      \<or> opKind op = NodeOp \<or> opKind op = MemOp)"

text \<open>Every declaration is an \<^verbatim>\<open>FNamableOp\<close>; \<open>hasDroppableName\<close> is its answer.\<close>

definition isDeletableDeclaration :: "Operation \<Rightarrow> bool" where
  "isDeletableDeclaration op = (if \<not> hasDroppableName op then False else \<not> opHasDontTouch op)"

definition markBlockUndeletable :: "BlockId \<Rightarrow> IMDeadCodeElimPass \<Rightarrow> IMDeadCodeElimPass" where
  "markBlockUndeletable block st = st\<lparr>undeletableBlocks := insert block (undeletableBlocks st)\<rparr>"

text \<open>\<^verbatim>\<open>markAlive(InstanceOp)\<close>.\<close>

definition markAliveInstance :: "IR \<Rightarrow> OpId \<Rightarrow> IMDeadCodeElimPass \<Rightarrow> IMDeadCodeElimPass" where
  "markAliveInstance ir instance st =
     (markBlockUndeletable (getBlock (getOp ir instance)) st)
       \<lparr>liveInstances := insert instance (liveInstances st)\<rparr>"

text \<open>\<^verbatim>\<open>markAlive(Value)\<close>.\<close>

definition markAlive :: "Value \<Rightarrow> IMDeadCodeElimPass \<Rightarrow> IMDeadCodeElimPass" where
  "markAlive value st =
     (if value \<in> liveValues st then st
      else st\<lparr>liveValues := insert value (liveValues st),
              valueWorklist := valueWorklist st @ [value]\<rparr>)"

definition isKnownAlive :: "IMDeadCodeElimPass \<Rightarrow> Value \<Rightarrow> bool" where
  "isKnownAlive st value = (value \<in> liveValues st)"

definition markDeclaration :: "IR \<Rightarrow> OpId \<Rightarrow> IMDeadCodeElimPass \<Rightarrow> IMDeadCodeElimPass option" where
  "markDeclaration ir opId st =
     (if \<not> isDeclaration (getOp ir opId) then None
      else if \<not> isDeletableDeclaration (getOp ir opId)
      then Some (markBlockUndeletable (getBlock (getOp ir opId))
                   (fold markAlive (getResults opId (getOp ir opId)) st))
      else Some st)"

definition markUnknownSideEffectOp :: "IR \<Rightarrow> OpId \<Rightarrow> IMDeadCodeElimPass \<Rightarrow> IMDeadCodeElimPass" where
  "markUnknownSideEffectOp ir opId st =
     markBlockUndeletable (getBlock (getOp ir opId))
       (fold markAlive (getOperands (getOp ir opId))
          (fold markAlive (getResults opId (getOp ir opId)) st))"

definition visitConnect :: "IR \<Rightarrow> OpId \<Rightarrow> IMDeadCodeElimPass \<Rightarrow> IMDeadCodeElimPass option" where
  "visitConnect ir connect st =
     (case getOperands (getOp ir connect) of
        dest # src # _ \<Rightarrow> Some (if isKnownAlive st dest then markAlive src st else st)
      | _ \<Rightarrow> None)"

definition visitSubelement :: "IR \<Rightarrow> OpId \<Rightarrow> IMDeadCodeElimPass \<Rightarrow> IMDeadCodeElimPass option" where
  "visitSubelement ir opId st =
     (case getOperands (getOp ir opId) of
        base # _ \<Rightarrow>
          (if getNumResults (getOp ir opId) = 0 then None
           else Some (if isKnownAlive st base then markAlive (OpResult opId 0) st else st))
      | [] \<Rightarrow> None)"

definition visitUser :: "IR \<Rightarrow> OpId \<Rightarrow> IMDeadCodeElimPass \<Rightarrow> IMDeadCodeElimPass option" where
  "visitUser ir opId st =
     (if opKind (getOp ir opId) = FConnectLike then visitConnect ir opId st
      else if opKind (getOp ir opId) = SubfieldOp \<or> opKind (getOp ir opId) = SubindexOp
              \<or> opKind (getOp ir opId) = SubaccessOp then visitSubelement ir opId st
      else Some st)"

text \<open>
  \<^verbatim>\<open>markInstanceOp\<close>. The call of \<^verbatim>\<open>markBlockExecutable\<close> on the body of the referenced
  module is the parameter \<open>markBlock\<close>, so that the recursion of the two functions is
  the recursion of \<open>markBlockExecutableDCE\<close> below.
\<close>

definition markInstanceOpDCE ::
  "IR \<Rightarrow> (BlockId \<Rightarrow> IMDeadCodeElimPass \<Rightarrow> IMDeadCodeElimPass option) \<Rightarrow> OpId
     \<Rightarrow> IMDeadCodeElimPass \<Rightarrow> IMDeadCodeElimPass option" where
  "markInstanceOpDCE ir markBlock instance st =
     (case getReferencedModule ir instance of
        FExtModuleOp ds \<Rightarrow>
          (case forEachM
                  (\<lambda>resultNo s.
                     case getPortDirection ir (FExtModuleOp ds) resultNo of
                       None \<Rightarrow> None
                     | Some Out \<Rightarrow> Some s
                     | Some In \<Rightarrow> Some (markAlive (OpResult instance resultNo) s))
                  [0 ..< getNumResults (getOp ir instance)] st of
             None \<Rightarrow> None
           | Some st' \<Rightarrow> Some (markAliveInstance ir instance st'))
      | FModuleOp fModule \<Rightarrow>
          (case markBlock fModule st of
             None \<Rightarrow> None
           | Some st1 \<Rightarrow>
               (let st2 = (if fModule \<in> undeletableBlocks st1
                           then markAliveInstance ir instance st1 else st1);
                    st3 = (case getInnerSym (getOp ir instance) of
                             None \<Rightarrow> st2
                           | Some innerSym \<Rightarrow>
                               if (fModule, innerSym) \<in> liveInnerSymbols st2
                               then markAliveInstance ir instance st2 else st2)
                in Some (fold (\<lambda>resultNo s.
                                 s\<lparr>resultPortToInstanceResultMappingDCE :=
                                      (resultPortToInstanceResultMappingDCE s)
                                        (BlockArgument fModule resultNo :=
                                           resultPortToInstanceResultMappingDCE s
                                             (BlockArgument fModule resultNo)
                                           @ [OpResult instance resultNo])\<rparr>)
                           [0 ..< getNumResults (getOp ir instance)] st3))))"

text \<open>The body of the loop over the operations of a block in \<^verbatim>\<open>markBlockExecutable\<close>.\<close>

definition markOpDCE ::
  "IR \<Rightarrow> (BlockId \<Rightarrow> IMDeadCodeElimPass \<Rightarrow> IMDeadCodeElimPass option) \<Rightarrow> OpId
     \<Rightarrow> IMDeadCodeElimPass \<Rightarrow> IMDeadCodeElimPass option" where
  "markOpDCE ir markBlock opId st =
     (if isDeclaration (getOp ir opId) then markDeclaration ir opId st
      else if opKind (getOp ir opId) = InstanceOp then markInstanceOpDCE ir markBlock opId st
      else if opKind (getOp ir opId) = FConnectLike then Some st
      else if hasUnknownSideEffect (getOp ir opId) then Some (markUnknownSideEffectOp ir opId st)
      else Some st)"

text \<open>
  \<^verbatim>\<open>markBlockExecutable\<close>. The recursion through the instances goes as deep as the
  module hierarchy; the first argument bounds the depth, and running out of it is
  \<open>None\<close>.
\<close>

fun markBlockExecutableDCE ::
  "IR \<Rightarrow> nat \<Rightarrow> BlockId \<Rightarrow> IMDeadCodeElimPass \<Rightarrow> IMDeadCodeElimPass option" where
  "markBlockExecutableDCE ir 0 block st =
     (if block \<in> executableBlocksDCE st then Some st else None)"
| "markBlockExecutableDCE ir (Suc depth) block st =
     (if block \<in> executableBlocksDCE st then Some st
      else
        let st1 = st\<lparr>executableBlocksDCE := insert block (executableBlocksDCE st)\<rparr>;
            fmodule = getModule ir block;
            st2 = (if isPublic fmodule \<or> \<not> moduleAnnotationsEmpty fmodule
                   then markBlockUndeletable block st1 else st1);
            st3 = fold (\<lambda>(argNo, port) s.
                          if portHasDontTouch port
                          then markBlockUndeletable block (markAlive (BlockArgument block argNo) s)
                          else s)
                    (enumerate 0 (getPorts fmodule)) st2
        in forEachM (markOpDCE ir (markBlockExecutableDCE ir depth)) (getBody fmodule) st3)"

text \<open>
  The body of the loop of \<^verbatim>\<open>visitValue\<close> over
  \<^verbatim>\<open>resultPortToInstanceResultMapping[blockArg]\<close>, for an alive input port. The values
  of that mapping are results of instances (only \<^verbatim>\<open>markInstanceOp\<close> adds to it); any
  other value there is \<open>None\<close>.
\<close>

definition propagateToInstance :: "IR \<Rightarrow> Value \<Rightarrow> IMDeadCodeElimPass \<Rightarrow> IMDeadCodeElimPass option" where
  "propagateToInstance ir userOfResultPort st =
     (case userOfResultPort of
        OpResult instance _ \<Rightarrow>
          if opKind (getOp ir instance) \<noteq> InstanceOp then None
          else if instance \<in> liveInstances st
          then Some (markAlive userOfResultPort st)
          else Some (st\<lparr>lazyLiveInputPorts :=
                         (lazyLiveInputPorts st)
                           (instance := lazyLiveInputPorts st instance @ [userOfResultPort])\<rparr>)
      | BlockArgument _ _ \<Rightarrow> None)"

text \<open>\<^verbatim>\<open>visitValue\<close>.\<close>

definition visitValue :: "IR \<Rightarrow> Value \<Rightarrow> IMDeadCodeElimPass \<Rightarrow> IMDeadCodeElimPass option" where
  "visitValue ir value st =
     (if \<not> isKnownAlive st value then None
      else
        case forEachM (visitUser ir) (getUsers ir value) st of
          None \<Rightarrow> None
        | Some st1 \<Rightarrow>
            (case value of
               BlockArgument module argNumber \<Rightarrow>
                 (case getPortDirection ir (FModuleOp module) argNumber of
                    None \<Rightarrow> None
                  | Some Out \<Rightarrow> Some st1
                  | Some In \<Rightarrow>
                      forEachM (propagateToInstance ir)
                        (resultPortToInstanceResultMappingDCE st1 value) st1)
             | OpResult opId resultNumber \<Rightarrow>
                 if opKind (getOp ir opId) = InstanceOp then
                   (case getReferencedModule ir opId of
                      FExtModuleOp _ \<Rightarrow> Some st1
                    | FModuleOp module \<Rightarrow>
                        (case getPortDirection ir (FModuleOp module) resultNumber of
                           None \<Rightarrow> None
                         | Some In \<Rightarrow> Some st1
                         | Some Out \<Rightarrow>
                             (let st2 = (if opId \<notin> liveInstances st1
                                         then fold markAlive (lazyLiveInputPorts st1 opId)
                                                (st1\<lparr>liveInstances :=
                                                       insert opId (liveInstances st1)\<rparr>)
                                         else st1)
                              in Some (markAlive (BlockArgument module resultNumber) st2))))
                 else if opKind (getOp ir opId) = MemOp
                 then Some (fold markAlive (getResults opId (getOp ir opId)) st1)
                 else Some (fold markAlive (getOperands (getOp ir opId)) st1)))"

text \<open>The pass state of a freshly constructed \<^verbatim>\<open>IMDeadCodeElimPass\<close>.\<close>

definition emptyDCE :: IMDeadCodeElimPass where
  "emptyDCE = \<lparr>executableBlocksDCE = {}, resultPortToInstanceResultMappingDCE = (\<lambda>_. []),
     valueWorklist = [], liveValues = {}, liveInstances = {}, liveInnerSymbols = {},
     undeletableBlocks = {}, lazyLiveInputPorts = (\<lambda>_. [])\<rparr>"

text \<open>
  The seeding loop of \<^verbatim>\<open>runOnOperation\<close>: the body block of every public module is
  marked executable and its ports alive.
\<close>

definition markPublicModules :: "IR \<Rightarrow> nat \<Rightarrow> IMDeadCodeElimPass \<Rightarrow> IMDeadCodeElimPass option" where
  "markPublicModules ir depth st =
     forEachM
       (\<lambda>module s.
          if isPublic (getModule ir module) then
            (case markBlockExecutableDCE ir depth module s of
               None \<Rightarrow> None
             | Some s' \<Rightarrow>
                 Some (fold (\<lambda>argNo. markAlive (BlockArgument module argNo))
                         [0 ..< length (getPorts (getModule ir module))] s'))
          else Some s)
       (circuitModules ir) st"

text \<open>
  \<^verbatim>\<open>while (!valueWorklist.empty()) visitValue(valueWorklist.pop_back_val())\<close>, cut off
  after \<open>n\<close> iterations: the state at the head of the loop after at most \<open>n\<close> visits.
  The two loops that follow it in the source (\<^verbatim>\<open>while (!symbolWorklist)\<close>) are left out:
  the members \<^verbatim>\<open>visitSymbol\<close> and \<^verbatim>\<open>visitInnerSymbol\<close> they call are not defined in
  the file, and nothing adds to the two symbol worklists, so the enclosing loop ends when
  \<^verbatim>\<open>valueWorklist\<close> is empty.
\<close>

fun visitValues :: "IR \<Rightarrow> nat \<Rightarrow> IMDeadCodeElimPass \<Rightarrow> IMDeadCodeElimPass option" where
  "visitValues ir 0 st = Some st"
| "visitValues ir (Suc n) st =
     (if valueWorklist st = [] then Some st
      else
        case visitValue ir (last (valueWorklist st))
               (st\<lparr>valueWorklist := butlast (valueWorklist st)\<rparr>) of
          None \<Rightarrow> None
        | Some st' \<Rightarrow> visitValues ir n st')"

text \<open>
  The calls \<^verbatim>\<open>runOnOperation\<close> makes to the functions that rewrite the circuit. Their
  bodies are not modelled; the driver below records the calls in their order.
\<close>

datatype RewriteCall =
    ForwardConstantOutputPort BlockId
  | RewriteModuleSignature BlockId
  | RewriteModuleBody BlockId
  | EraseEmptyModule BlockId

text \<open>
  \<^verbatim>\<open>IMDeadCodeElimPass::runOnOperation\<close>: the forwarding of constant output ports over
  the modules in post order, the seeding and the liveness fixpoint (on the IR as the
  forwarding left it), \<^verbatim>\<open>rewriteModuleSignature\<close> for every module of the circuit,
  then \<^verbatim>\<open>rewriteModuleBody\<close> for every module (\<^verbatim>\<open>parallelForEach\<close> returns when all
  have finished), then \<^verbatim>\<open>eraseEmptyModule\<close> over the modules in post order. The result
  is the sequence of rewriting calls with the liveness state of the fixpoint; \<open>None\<close>
  when an assertion fails or \<open>fuel\<close> does not suffice to empty the worklist.
\<close>

definition runOnOperationDCE :: "IR \<Rightarrow> nat \<Rightarrow> (RewriteCall list \<times> IMDeadCodeElimPass) option" where
  "runOnOperationDCE ir fuel =
     (let calls0 = fold (\<lambda>module calls. calls @ [ForwardConstantOutputPort module])
                     (postOrderModules ir) []
      in
      case markPublicModules ir fuel emptyDCE of
        None \<Rightarrow> None
      | Some st0 \<Rightarrow>
          (case visitValues ir fuel st0 of
             None \<Rightarrow> None
           | Some st \<Rightarrow>
               if valueWorklist st \<noteq> [] then None
               else
                 let calls1 = fold (\<lambda>module calls. calls @ [RewriteModuleSignature module])
                                (circuitModules ir) calls0;
                     calls2 = fold (\<lambda>module calls. calls @ [RewriteModuleBody module])
                                (circuitModules ir) calls1;
                     calls3 = fold (\<lambda>module calls. calls @ [EraseEmptyModule module])
                                (postOrderModules ir) calls2
                 in Some (calls3, st)))"

subsection \<open>Predicates on the liveness state\<close>

text \<open>Every input port queued for an instance that is known alive is itself alive.\<close>

definition pendingFlushed :: "IMDeadCodeElimPass \<Rightarrow> bool" where
  "pendingFlushed st =
     (\<forall>instance \<in> liveInstances st. set (lazyLiveInputPorts st instance) \<subseteq> liveValues st)"

text \<open>The second state has the instances, pending lists and port mapping of the first,
  and at least its live values.\<close>

definition livenessExtends :: "IMDeadCodeElimPass \<Rightarrow> IMDeadCodeElimPass \<Rightarrow> bool" where
  "livenessExtends st st' =
     (liveInstances st' = liveInstances st \<and> lazyLiveInputPorts st' = lazyLiveInputPorts st
      \<and> resultPortToInstanceResultMappingDCE st' = resultPortToInstanceResultMappingDCE st
      \<and> liveValues st \<subseteq> liveValues st')"

subsection \<open>Predicates on the lattice state\<close>

text \<open>The lattice value of a key; a key without an entry is Unknown, as
  \<^verbatim>\<open>latticeValues[key]\<close> has it.\<close>

definition entryOf :: "IMConstPropPass \<Rightarrow> FieldRef \<Rightarrow> LatticeValue" where
  "entryOf st k = (case latticeValues st k of None \<Rightarrow> Unknown | Some v \<Rightarrow> v)"

text \<open>The order of the lattice: Unknown, Unwritten, the constants, Overdefined.\<close>

fun latticeLe :: "LatticeValue \<Rightarrow> LatticeValue \<Rightarrow> bool" where
  "latticeLe Unknown b = True"
| "latticeLe Unwritten b = (b \<noteq> Unknown)"
| "latticeLe (Constant c) b = (b = Constant c \<or> b = Overdefined)"
| "latticeLe Overdefined b = (b = Overdefined)"

text \<open>The second state has the worklist of the first with keys pushed at its back, among
  them every key whose lattice value has changed.\<close>

definition pushes :: "IMConstPropPass \<Rightarrow> IMConstPropPass \<Rightarrow> bool" where
  "pushes s s' =
     (\<exists>ws. changedLatticeValueWorklist s' = changedLatticeValueWorklist s @ ws
           \<and> (\<forall>k. entryOf s' k \<noteq> entryOf s k \<longrightarrow> k \<in> set ws))"

definition risesOn :: "FieldRef set \<Rightarrow> IMConstPropPass \<Rightarrow> IMConstPropPass \<Rightarrow> bool" where
  "risesOn A s s' = (\<forall>k \<in> A. latticeLe (entryOf s k) (entryOf s' k))"

definition sameIndex :: "IMConstPropPass \<Rightarrow> IMConstPropPass \<Rightarrow> bool" where
  "sameIndex s s' = (executableBlocks s' = executableBlocks s
                     \<and> fieldRefToUsers s' = fieldRefToUsers s)"

text \<open>What a sequence of merges and marks does.\<close>

definition merges :: "IMConstPropPass \<Rightarrow> IMConstPropPass \<Rightarrow> bool" where
  "merges s s' = (pushes s s' \<and> risesOn UNIV s s' \<and> sameIndex s s')"

definition keepsOverdefined :: "IMConstPropPass \<Rightarrow> IMConstPropPass \<Rightarrow> bool" where
  "keepsOverdefined s s' = (\<forall>k. entryOf s k = Overdefined \<longrightarrow> entryOf s' k = Overdefined)"

text \<open>What the adoption of fold results does to the keys of \<open>A\<close>: nothing.\<close>

definition adopts :: "FieldRef set \<Rightarrow> IMConstPropPass \<Rightarrow> IMConstPropPass \<Rightarrow> bool" where
  "adopts A s s' = (pushes s s' \<and> sameIndex s s' \<and> (\<forall>k \<in> A. entryOf s' k = entryOf s k))"

text \<open>What a step of the initial scan does: it pushes the keys it changes, lowers no
  entry, marks blocks executable, and indexes users, all of them operations with
  operands.\<close>

definition scans :: "IR \<Rightarrow> IMConstPropPass \<Rightarrow> IMConstPropPass \<Rightarrow> bool" where
  "scans ir s s' =
     (pushes s s' \<and> risesOn UNIV s s' \<and> executableBlocks s \<subseteq> executableBlocks s'
      \<and> (\<forall>k. set (fieldRefToUsers s k) \<subseteq> set (fieldRefToUsers s' k))
      \<and> (\<forall>k u. u \<in> set (fieldRefToUsers s' k)
             \<longrightarrow> u \<in> set (fieldRefToUsers s k) \<or> getOperands (getOp ir u) \<noteq> []))"

text \<open>What a visit in the worklist loop does to the keys of \<open>A\<close>.\<close>

definition advances :: "FieldRef set \<Rightarrow> IMConstPropPass \<Rightarrow> IMConstPropPass \<Rightarrow> bool" where
  "advances A s s' = (pushes s s' \<and> sameIndex s s' \<and> risesOn A s s')"




subsection \<open>Predicates on the rewriter\<close>

text \<open>
  What the rewrite keeps of a wire \<open>w\<close> in the body of \<open>b\<close>, in an IR \<open>ir\<close> whose
  operations have names below \<open>fresh\<close>: the rewriter has the \<^verbatim>\<open>FieldRef\<close>s of \<open>ir\<close>;
  \<open>w\<close> is a wire with one result; the operations of the bodies have names below
  \<open>nextOpId\<close>, and the pooled constants names from \<open>fresh\<close> on; every operand that
  is the result of \<open>w\<close> in \<open>ir\<close> still is; and \<open>w\<close> is in the body of \<open>b\<close> unless
  no operation there uses it.
\<close>

definition keepsWire :: "IR \<Rightarrow> BlockId \<Rightarrow> OpId \<Rightarrow> nat \<Rightarrow> Rewriter \<Rightarrow> bool" where
  "keepsWire ir b w fresh rw =
     (getFieldRefFromValue (rwIR rw) = getFieldRefFromValue ir
      \<and> opKind (getOp (rwIR rw) w) = WireOp \<and> getNumResults (getOp (rwIR rw) w) = 1
      \<and> w < fresh \<and> fresh \<le> nextOpId rw
      \<and> (\<forall>blk. \<forall>opId \<in> set (getBody (getModule (rwIR rw) blk)). opId < nextOpId rw)
      \<and> (\<forall>cst \<in> ran (constPool rw). fresh \<le> cst)
      \<and> (\<forall>reader n. reader < fresh \<and> n < length (getOperands (getOp ir reader))
                       \<and> getOperands (getOp ir reader) ! n = OpResult w 0
            \<longrightarrow> n < length (getOperands (getOp (rwIR rw) reader))
                \<and> getOperands (getOp (rwIR rw) reader) ! n = OpResult w 0)
      \<and> (use_empty b w rw \<or> w \<in> set (getBody (getModule (rwIR rw) b))))"

subsection \<open>Example circuits\<close>

text \<open>An operation with no marker, no annotation, a droppable name and no side effect.\<close>

definition mkOp :: "OpKind \<Rightarrow> Value list \<Rightarrow> nat \<Rightarrow> BlockId \<Rightarrow> Operation" where
  "mkOp kind operands numResults block =
     \<lparr>opKind = kind, getOperands = operands, getNumResults = numResults, getBlock = block,
      opHasDontTouch = False, annotationsEmpty = True, hasDroppableName = True,
      getInnerSym = None, memoryEffects = MemoryEffectFree, wouldOpBeTriviallyDead = True\<rparr>"

definition uint8 :: Type where
  "uint8 = FIRRTL (BaseType (UIntType (Some 8)))"

definition lit8 :: "nat \<Rightarrow> APSInt" where
  "lit8 n = \<lparr>bitWidth = 8, isUnsigned = True, bits = n\<rparr>"

text \<open>An IR of \<^verbatim>\<open>UInt<8>\<close> values in which every value is its own root, nothing folds
  and there is one public module without ports.\<close>

definition mkIR :: "(OpId \<Rightarrow> Operation) \<Rightarrow> IR" where
  "mkIR ops =
     \<lparr>getOp = ops, getType = (\<lambda>_. uint8), getFieldRefFromValue = (\<lambda>v. (v, 0)),
      getReferencedModule = (\<lambda>_. FExtModuleOp []), opFold = (\<lambda>_ _. None),
      getUsers = (\<lambda>_. []),
      getModule = (\<lambda>_. \<lparr>isPublic = True, moduleAnnotationsEmpty = True,
                          getPorts = [], getBody = []\<rparr>),
      circuitModules = [0], postOrderModules = [0]\<rparr>"

text \<open>\<^verbatim>\<open>%w = firrtl.wire : !firrtl.uint<8>\<close> as operation 0.\<close>

definition wireIR :: IR where
  "wireIR = mkIR (\<lambda>_. mkOp WireOp [] 1 0)"

text \<open>
  An operation that folds. Module 0 (public, one output port) holds the constant 3
  (operation 0), operation 1 with the constant as its operand and one result, whose fold
  hook gives the operand when that is a constant and fails otherwise, and the connect of
  that result to the port (operation 2).
\<close>

definition foldOp :: "OpId \<Rightarrow> Operation" where
  "foldOp opId =
     (if opId = 0 then mkOp (ConstantOp (lit8 3)) [] 1 0
      else if opId = 1 then mkOp OtherOp [OpResult 0 0] 1 0
      else mkOp FConnectLike [BlockArgument 0 0, OpResult 1 0] 0 0)"

definition foldHook :: "OpId \<Rightarrow> Attribute option list \<Rightarrow> OpFoldResult list option" where
  "foldHook opId operandConstants =
     (if opId = 1 then
        (case operandConstants of
           Some c # _ \<Rightarrow> Some [FoldAttribute c]
         | _ \<Rightarrow> None)
      else None)"

definition foldModule :: "BlockId \<Rightarrow> FModule" where
  "foldModule b =
     \<lparr>isPublic = True, moduleAnnotationsEmpty = True,
      getPorts = [\<lparr>portDirection = Out, portHasDontTouch = False\<rparr>],
      getBody = [0, 1, 2]\<rparr>"

definition foldIR :: IR where
  "foldIR =
     \<lparr>getOp = foldOp, getType = (\<lambda>_. uint8), getFieldRefFromValue = (\<lambda>v. (v, 0)),
      getReferencedModule = (\<lambda>_. FExtModuleOp []), opFold = foldHook,
      getUsers = (\<lambda>_. []), getModule = foldModule,
      circuitModules = [0], postOrderModules = [0]\<rparr>"

text \<open>Operation 0 is the constant 3, operation 1 a node of it, operation 2 a connect
  whose destination is the node.\<close>

definition nodeIR :: IR where
  "nodeIR = mkIR (\<lambda>opId.
     if opId = 0 then mkOp (ConstantOp (lit8 3)) [] 1 0
     else if opId = 1 then mkOp NodeOp [OpResult 0 0] 1 0
     else mkOp FConnectLike [OpResult 1 0, OpResult 0 0] 0 0)"

definition nodePass :: IMConstPropPass where
  "nodePass = emptyPass\<lparr>latticeValues :=
     [(OpResult 0 0, 0) \<mapsto> Constant (IntegerAttr (lit8 3))]\<rparr>"

text \<open>
  Two instantiation sites of one callee. Module 0 (public, two output ports) holds the
  constants 3 and 4 (operations 0 and 1), two instances of module 1 (operations 2 and 3),
  the connects of the constants to the input port of each instance (operations 4 and 5)
  and the connects of the instances' outputs to the ports (operations 6 and 7). Module 1
  has an input port 0 and an output port 1 and connects the one to the other
  (operation 10).
\<close>

definition twoSitesOp :: "OpId \<Rightarrow> Operation" where
  "twoSitesOp opId =
     (if opId = 0 then mkOp (ConstantOp (lit8 3)) [] 1 0
      else if opId = 1 then mkOp (ConstantOp (lit8 4)) [] 1 0
      else if opId = 2 \<or> opId = 3 then mkOp InstanceOp [] 2 0
      else if opId = 4 then mkOp FConnectLike [OpResult 2 0, OpResult 0 0] 0 0
      else if opId = 5 then mkOp FConnectLike [OpResult 3 0, OpResult 1 0] 0 0
      else if opId = 6 then mkOp FConnectLike [BlockArgument 0 0, OpResult 2 1] 0 0
      else if opId = 7 then mkOp FConnectLike [BlockArgument 0 1, OpResult 3 1] 0 0
      else mkOp FConnectLike [BlockArgument 1 1, BlockArgument 1 0] 0 1)"

definition twoSitesUsers :: "Value \<Rightarrow> OpId list" where
  "twoSitesUsers v =
     (if v = OpResult 0 0 then [4] else if v = OpResult 1 0 then [5]
      else if v = OpResult 2 0 then [4] else if v = OpResult 3 0 then [5]
      else if v = OpResult 2 1 then [6] else if v = OpResult 3 1 then [7]
      else if v = BlockArgument 0 0 then [6] else if v = BlockArgument 0 1 then [7]
      else if v = BlockArgument 1 0 \<or> v = BlockArgument 1 1 then [10] else [])"

definition twoSitesModule :: "BlockId \<Rightarrow> FModule" where
  "twoSitesModule b =
     (if b = 0 then
        \<lparr>isPublic = True, moduleAnnotationsEmpty = True,
         getPorts = [\<lparr>portDirection = Out, portHasDontTouch = False\<rparr>,
                     \<lparr>portDirection = Out, portHasDontTouch = False\<rparr>],
         getBody = [0, 1, 2, 3, 4, 5, 6, 7]\<rparr>
      else
        \<lparr>isPublic = False, moduleAnnotationsEmpty = True,
         getPorts = [\<lparr>portDirection = In, portHasDontTouch = False\<rparr>,
                     \<lparr>portDirection = Out, portHasDontTouch = False\<rparr>],
         getBody = [10]\<rparr>)"

definition rootOf :: "Value \<Rightarrow> FieldRef" where
  "rootOf v = (v, 0)"

definition twoSitesIR :: IR where
  "twoSitesIR =
     \<lparr>getOp = twoSitesOp, getType = (\<lambda>_. uint8), getFieldRefFromValue = rootOf,
      getReferencedModule = (\<lambda>_. FModuleOp 1), opFold = (\<lambda>_ _. None),
      getUsers = twoSitesUsers, getModule = twoSitesModule,
      circuitModules = [0, 1], postOrderModules = [1, 0]\<rparr>"







section \<open>Properties\<close>

subsection \<open>The merge rule\<close>

text \<open>
  C1. \<^verbatim>\<open>LatticeValue::mergeIn\<close> is the join of the four-state lattice: an Overdefined
  target and an Unknown source change nothing; an Unknown target adopts the source; an
  Unwritten source is absorbed by a Constant or Overdefined target; two Constants merge
  to Overdefined when their values differ and change nothing when they are equal; and
  the resulting state does not depend on which operand is the target.
\<close>

theorem mergeIn_join:
  "mergeIn Overdefined b = (False, Overdefined)
   \<and> mergeIn a Unknown = (False, a)
   \<and> snd (mergeIn Unknown b) = b
   \<and> mergeIn (Constant v) Unwritten = (False, Constant v)
   \<and> mergeIn Overdefined Unwritten = (False, Overdefined)
   \<and> mergeIn (Constant v) (Constant w)
       = (if v = w then (False, Constant v) else (True, Overdefined))
   \<and> snd (mergeIn a b) = snd (mergeIn b a)"
proof -
  have comm: "snd (mergeIn a b) = snd (mergeIn b a)"
    by (cases a; cases b) (auto simp: mergeIn_def)
  have adopt: "snd (mergeIn Unknown b) = b"
    by (cases b) (simp_all add: mergeIn_def)
  have src_unknown: "mergeIn a Unknown = (False, a)"
    by (simp add: mergeIn_def)
  show ?thesis
    using comm adopt src_unknown by (simp add: mergeIn_def)
qed

subsection \<open>Helper facts about the lattice map\<close>

lemma mergeIn_unchanged: "mergeIn a v = (False, b) \<Longrightarrow> b = a"
  by (auto simp: mergeIn_def split: if_splits)

lemma mergeIn_two_constants:
  "c1 \<noteq> c2 \<Longrightarrow> snd (mergeIn (snd (mergeIn e (Constant c1))) (Constant c2)) = Overdefined"
  by (cases e) (auto simp: mergeIn_def)

lemma mergeIn_Overdefined_stays: "mergeIn Overdefined v = (False, Overdefined)"
  by (simp add: mergeIn_def)

lemma isGround_getPassiveType: "isGround (getPassiveType t) = isGround t"
  by (cases t) simp_all

lemma markOverdefined_at: "latticeValues (markOverdefined k st) k = Some Overdefined"
  by (cases "latticeValues st k"; cases "the (latticeValues st k)")
     (auto simp: markOverdefined_def latticeValuesAt_def)

lemma latticeValues_mergeLatticeValue:
  assumes "\<not> isUnknown v"
  shows "latticeValues (mergeLatticeValue k v st)
     = (latticeValues st)
         (k \<mapsto> snd (mergeIn (case latticeValues st k of None \<Rightarrow> Unknown | Some e \<Rightarrow> e) v))"
proof (cases "latticeValues st k")
  case None
  obtain c e where m: "mergeIn Unknown v = (c, e)" by (cases "mergeIn Unknown v")
  show ?thesis
  proof (cases c)
    case True
    with None m assms show ?thesis
      by (simp add: mergeLatticeValue_def latticeValuesAt_def)
  next
    case False
    with m have "e = Unknown" by (auto dest: mergeIn_unchanged)
    with False None m assms show ?thesis
      by (simp add: mergeLatticeValue_def latticeValuesAt_def)
  qed
next
  case (Some a)
  obtain c e where m: "mergeIn a v = (c, e)" by (cases "mergeIn a v")
  show ?thesis
  proof (cases c)
    case True
    with Some m assms show ?thesis
      by (simp add: mergeLatticeValue_def latticeValuesAt_def)
  next
    case False
    with m have "e = a" by (auto dest: mergeIn_unchanged)
    then have "(latticeValues st)(k \<mapsto> e) = latticeValues st"
      using Some by (simp add: fun_upd_idem)
    with False Some m assms show ?thesis
      by (simp add: mergeLatticeValue_def latticeValuesAt_def)
  qed
qed

text \<open>\<^verbatim>\<open>mergeLatticeValue\<close> never changes an entry that is Overdefined.\<close>

lemma mergeLatticeValue_keeps_Overdefined:
  assumes "latticeValues st k' = Some Overdefined"
  shows "latticeValues (mergeLatticeValue k v st) k' = Some Overdefined"
proof (cases "isUnknown v")
  case True
  with assms show ?thesis by (simp add: mergeLatticeValue_def)
next
  case False
  show ?thesis
  proof (cases "k' = k")
    case True
    with assms False show ?thesis
      by (simp add: latticeValues_mergeLatticeValue mergeIn_Overdefined_stays)
  next
    case neq: False
    with assms False show ?thesis
      by (simp add: latticeValues_mergeLatticeValue)
  qed
qed

lemma getExtendedLatticeValue_cong:
  "latticeValues st' k = latticeValues st k \<Longrightarrow>
   getExtendedLatticeValue st' k t a = getExtendedLatticeValue st k t a"
  by (simp add: getExtendedLatticeValue_def)

lemma getExtendedLatticeValue_emittedErrors:
  "getExtendedLatticeValue (st\<lparr>emittedErrors := es\<rparr>) k t a = getExtendedLatticeValue st k t a"
  by (simp add: getExtendedLatticeValue_def)

subsection \<open>Loops\<close>

lemma forEachM_invariant:
  assumes "forEachM f xs st = Some st'" and "P st"
    and "\<And>x s s'. P s \<Longrightarrow> f x s = Some s' \<Longrightarrow> P s'"
  shows "P st'"
  using assms(1,2)
proof (induction xs arbitrary: st)
  case Nil
  then show ?case by simp
next
  case (Cons x xs)
  then show ?case
    by (auto split: option.splits intro: assms(3))
qed

lemma fold_invariant:
  assumes "P st" and "\<And>x s. P s \<Longrightarrow> P (f x s)"
  shows "P (fold f xs st)"
  using assms(1) by (induction xs arbitrary: st) (auto intro: assms(2))

lemma forEachM_establishes:
  assumes run: "forEachM f xs st = Some st'" and mem: "x \<in> set xs" and I0: "I st"
    and Istep: "\<And>y s s'. I s \<Longrightarrow> f y s = Some s' \<Longrightarrow> I s'"
    and est: "\<And>s s'. I s \<Longrightarrow> f x s = Some s' \<Longrightarrow> Q s'"
    and keep: "\<And>y s s'. I s \<Longrightarrow> Q s \<Longrightarrow> f y s = Some s' \<Longrightarrow> Q s'"
  shows "Q st'"
  using run mem I0
proof (induction xs arbitrary: st)
  case Nil
  then show ?case by simp
next
  case (Cons y ys)
  from Cons.prems(1) obtain s1 where s1: "f y st = Some s1" and rest: "forEachM f ys s1 = Some st'"
    by (auto split: option.splits)
  have I1: "I s1" using Istep [OF Cons.prems(3) s1] .
  show ?case
  proof (cases "y = x")
    case True
    with s1 Cons.prems(3) have "Q s1" by (auto intro: est)
    with I1 have "I s1 \<and> Q s1" by simp
    then have "I st' \<and> Q st'"
      by (rule forEachM_invariant [OF rest, where P = "\<lambda>s. I s \<and> Q s"])
         (auto intro: Istep keep)
    then show ?thesis by simp
  next
    case False
    with Cons.prems(2) have "x \<in> set ys" by simp
    then show ?thesis using Cons.IH [OF rest _ I1] by simp
  qed
qed

lemma fold_rel:
  assumes "\<And>s. R s s" and "\<And>a b c. R a b \<Longrightarrow> R b c \<Longrightarrow> R a c"
    and "\<And>x s. x \<in> set xs \<Longrightarrow> R s (f x s)"
  shows "R st (fold f xs st)"
  using assms(3)
proof (induction xs arbitrary: st)
  case Nil
  then show ?case by (simp add: assms(1))
next
  case (Cons x xs)
  have "R st (f x st)" by (rule Cons.prems) simp
  moreover have "R (f x st) (fold f xs (f x st))"
    by (rule Cons.IH) (simp add: Cons.prems)
  ultimately show ?case by (auto intro: assms(2))
qed

lemma forEachM_rel:
  assumes "\<And>s. R s s" and "\<And>a b c. R a b \<Longrightarrow> R b c \<Longrightarrow> R a c"
    and "\<And>x s s'. x \<in> set xs \<Longrightarrow> f x s = Some s' \<Longrightarrow> R s s'"
    and "forEachM f xs st = Some st'"
  shows "R st st'"
  using assms(3,4)
proof (induction xs arbitrary: st)
  case Nil
  then show ?case by (simp add: assms(1))
next
  case (Cons x xs)
  from Cons.prems(2) obtain s1 where s1: "f x st = Some s1" and r: "forEachM f xs s1 = Some st'"
    by (auto split: option.splits)
  have "R st s1" using Cons.prems(1) [of x st s1] s1 by simp
  moreover have "R s s'" if "y \<in> set xs" "f y s = Some s'" for y s s'
    using Cons.prems(1) [of y s s'] that by simp
  then have "R s1 st'" using r by (rule Cons.IH)
  ultimately show ?case by (auto intro: assms(2))
qed




subsection \<open>The lattice order and the lattice updates\<close>

lemma latticeLe_refl [simp]: "latticeLe a a"
  by (cases a) simp_all

lemma latticeLe_trans: "latticeLe a b \<Longrightarrow> latticeLe b c \<Longrightarrow> latticeLe a c"
  by (cases a; cases b; cases c) auto

lemma latticeLe_Overdefined [simp]: "latticeLe a Overdefined"
  by (cases a) simp_all

lemma latticeLe_mergeIn_left: "latticeLe a (snd (mergeIn a v))"
  by (cases a; cases v) (auto simp: mergeIn_def)


lemma mergeIn_changed: "fst (mergeIn a v) = (snd (mergeIn a v) \<noteq> a)"
  by (cases a; cases v) (auto simp: mergeIn_def)


lemma pushes_refl [simp]: "pushes s s"
  by (simp add: pushes_def)

lemma pushes_trans:
  assumes "pushes a b" and "pushes b c"
  shows "pushes a c"
proof -
  from assms(1) obtain ws1 where
    w1: "changedLatticeValueWorklist b = changedLatticeValueWorklist a @ ws1"
    and e1: "\<And>k. entryOf b k \<noteq> entryOf a k \<Longrightarrow> k \<in> set ws1"
    unfolding pushes_def by blast
  from assms(2) obtain ws2 where
    w2: "changedLatticeValueWorklist c = changedLatticeValueWorklist b @ ws2"
    and e2: "\<And>k. entryOf c k \<noteq> entryOf b k \<Longrightarrow> k \<in> set ws2"
    unfolding pushes_def by blast
  have "changedLatticeValueWorklist c = changedLatticeValueWorklist a @ (ws1 @ ws2)"
    using w1 w2 by simp
  moreover have "k \<in> set (ws1 @ ws2)" if "entryOf c k \<noteq> entryOf a k" for k
  proof (cases "entryOf c k = entryOf b k")
    case True
    with that have "entryOf b k \<noteq> entryOf a k" by simp
    then show ?thesis using e1 by simp
  next
    case False
    then show ?thesis using e2 by simp
  qed
  ultimately show ?thesis unfolding pushes_def by blast
qed

lemma risesOn_refl [simp]: "risesOn A s s"
  by (simp add: risesOn_def)

lemma risesOn_trans: "risesOn A a b \<Longrightarrow> risesOn A b c \<Longrightarrow> risesOn A a c"
  unfolding risesOn_def by (blast intro: latticeLe_trans)

lemma risesOn_subset: "risesOn A s s' \<Longrightarrow> B \<subseteq> A \<Longrightarrow> risesOn B s s'"
  unfolding risesOn_def by blast

lemma sameIndex_refl [simp]: "sameIndex s s"
  by (simp add: sameIndex_def)

lemma sameIndex_trans: "sameIndex a b \<Longrightarrow> sameIndex b c \<Longrightarrow> sameIndex a c"
  by (simp add: sameIndex_def)

text \<open>The lattice updates in terms of the entries.\<close>

lemma entryOf_worklist [simp]:
  "entryOf (st\<lparr>changedLatticeValueWorklist := w\<rparr>) = entryOf st"
  by (rule ext) (simp add: entryOf_def)

lemma latticeValuesAt_fst [simp]: "fst (latticeValuesAt k st) = entryOf st k"
  by (simp add: latticeValuesAt_def entryOf_def split: option.splits)

lemma latticeValuesAt_entryOf [simp]: "entryOf (snd (latticeValuesAt k st)) = entryOf st"
  by (rule ext) (simp add: latticeValuesAt_def entryOf_def split: option.splits)

lemma latticeValuesAt_fields [simp]:
  "changedLatticeValueWorklist (snd (latticeValuesAt k st)) = changedLatticeValueWorklist st"
  "executableBlocks (snd (latticeValuesAt k st)) = executableBlocks st"
  "fieldRefToUsers (snd (latticeValuesAt k st)) = fieldRefToUsers st"
  "resultPortToInstanceResultMapping (snd (latticeValuesAt k st))
     = resultPortToInstanceResultMapping st"
  "emittedErrors (snd (latticeValuesAt k st)) = emittedErrors st"
  by (simp_all add: latticeValuesAt_def split: option.splits)

lemma markOverdefined_entryOf:
  "entryOf (markOverdefined k st) = (entryOf st)(k := Overdefined)"
  by (rule ext)
     (auto simp: markOverdefined_def latticeValuesAt_def entryOf_def split: option.splits
           elim: isOverdefined.elims)

lemma markOverdefined_worklist:
  "changedLatticeValueWorklist (markOverdefined k st)
     = changedLatticeValueWorklist st @ (if entryOf st k = Overdefined then [] else [k])"
  by (auto simp: markOverdefined_def latticeValuesAt_def entryOf_def split: option.splits
           elim: isOverdefined.elims)

lemma markOverdefined_fields [simp]:
  "executableBlocks (markOverdefined k st) = executableBlocks st"
  "fieldRefToUsers (markOverdefined k st) = fieldRefToUsers st"
  "resultPortToInstanceResultMapping (markOverdefined k st)
     = resultPortToInstanceResultMapping st"
  "emittedErrors (markOverdefined k st) = emittedErrors st"
  by (simp_all add: markOverdefined_def latticeValuesAt_def split: option.splits)

lemma mergeLatticeValue_entryOf:
  "entryOf (mergeLatticeValue k v st) = (entryOf st)(k := snd (mergeIn (entryOf st k) v))"
proof (cases "isUnknown v")
  case True
  then have "v = Unknown" by (cases v) simp_all
  then show ?thesis
    by (auto simp: mergeLatticeValue_def mergeIn_def)
next
  case False
  show ?thesis
    by (rule ext) (simp add: entryOf_def latticeValues_mergeLatticeValue [OF False])
qed

lemma mergeLatticeValue_worklist:
  "changedLatticeValueWorklist (mergeLatticeValue k v st)
     = changedLatticeValueWorklist st
       @ (if snd (mergeIn (entryOf st k) v) \<noteq> entryOf st k then [k] else [])"
proof (cases "isUnknown v")
  case True
  then have "v = Unknown" by (cases v) simp_all
  then show ?thesis
    by (auto simp: mergeLatticeValue_def mergeIn_def)
next
  case False
  obtain c e where m: "mergeIn (entryOf st k) v = (c, e)" by (cases "mergeIn (entryOf st k) v")
  with mergeIn_changed [of "entryOf st k" v] have c: "c = (e \<noteq> entryOf st k)" by simp
  show ?thesis
  proof (cases "latticeValues st k")
    case None
    then have "entryOf st k = Unknown" by (simp add: entryOf_def)
    with False m c None show ?thesis
      by (auto simp: mergeLatticeValue_def latticeValuesAt_def)
  next
    case (Some a)
    then have "entryOf st k = a" by (simp add: entryOf_def)
    with False m c Some show ?thesis
      by (auto simp: mergeLatticeValue_def latticeValuesAt_def)
  qed
qed

lemma mergeLatticeValue_fields [simp]:
  "executableBlocks (mergeLatticeValue k v st) = executableBlocks st"
  "fieldRefToUsers (mergeLatticeValue k v st) = fieldRefToUsers st"
  "resultPortToInstanceResultMapping (mergeLatticeValue k v st)
     = resultPortToInstanceResultMapping st"
  "emittedErrors (mergeLatticeValue k v st) = emittedErrors st"
  by (simp_all add: mergeLatticeValue_def latticeValuesAt_def split: option.splits prod.splits)

lemma setLatticeValue_entryOf:
  "entryOf (setLatticeValue k v st)
     = (if v = Unknown then entryOf st else (entryOf st)(k := v))"
  by (rule ext)
     (auto simp: setLatticeValue_def latticeValuesAt_def entryOf_def split: option.splits
           elim: isUnknown.elims)


lemma setLatticeValue_fields [simp]:
  "executableBlocks (setLatticeValue k v st) = executableBlocks st"
  "fieldRefToUsers (setLatticeValue k v st) = fieldRefToUsers st"
  "resultPortToInstanceResultMapping (setLatticeValue k v st)
     = resultPortToInstanceResultMapping st"
  "emittedErrors (setLatticeValue k v st) = emittedErrors st"
  by (simp_all add: setLatticeValue_def latticeValuesAt_def split: option.splits prod.splits)

lemma merges_refl [simp]: "merges s s"
  by (simp add: merges_def)

lemma merges_trans: "merges a b \<Longrightarrow> merges b c \<Longrightarrow> merges a c"
  unfolding merges_def
  by (blast intro: pushes_trans risesOn_trans sameIndex_trans)

lemma merges_markOverdefined: "merges st (markOverdefined k st)"
  by (auto simp: merges_def pushes_def risesOn_def sameIndex_def markOverdefined_entryOf
        markOverdefined_worklist)

lemma merges_mergeLatticeValue: "merges st (mergeLatticeValue k v st)"
  by (auto simp: merges_def pushes_def risesOn_def sameIndex_def mergeLatticeValue_entryOf
        mergeLatticeValue_worklist latticeLe_mergeIn_left)

lemma merges_latticeValuesAt: "merges st (snd (latticeValuesAt k st))"
  by (simp add: merges_def pushes_def risesOn_def sameIndex_def)

lemma merges_emittedErrors: "merges st (st\<lparr>emittedErrors := es\<rparr>)"
  by (simp add: merges_def pushes_def risesOn_def sameIndex_def entryOf_def)

lemma merges_fold_markOverdefined:
  "merges st (fold (\<lambda>(fieldID, _). markOverdefined (getSubField fieldRef fieldID)) leaves st)"
  by (rule fold_rel [where R = merges])
     (auto intro: merges_trans merges_markOverdefined)

lemma merges_markOverdefinedValue:
  "markOverdefinedValue ir v st = Some st' \<Longrightarrow> merges st st'"
  by (auto simp: markOverdefinedValue_def Let_def merges_fold_markOverdefined
        split: option.splits)

lemma merges_markUnwrittenValue:
  "markUnwrittenValue ir v st = Some st' \<Longrightarrow> merges st st'"
  by (auto simp: markUnwrittenValue_def Let_def merges_fold_markOverdefined
        split: option.splits)

lemma merges_mergeLatticeValueKey: "merges st (mergeLatticeValueKey k k' st)"
  by (simp add: mergeLatticeValueKey_def merges_mergeLatticeValue split: option.splits)

lemma merges_mergeLatticeValueValue: "merges st (mergeLatticeValueValue ir v v' st)"
proof -
  have "merges st (fold (\<lambda>(fieldID, _). mergeLatticeValueKey (getSubField a fieldID)
                                         (getSubField b fieldID)) leaves st)"
    for a b and leaves :: "(nat \<times> FIRRTLBaseType) list"
    by (rule fold_rel [where R = merges])
       (auto intro: merges_trans merges_mergeLatticeValueKey)
  then show ?thesis
    by (simp add: mergeLatticeValueValue_def Let_def merges_mergeLatticeValueKey
          split: option.splits Type.splits)
qed

subsection \<open>What a visit changes\<close>

lemma keepsOverdefined_refl [simp]: "keepsOverdefined s s"
  by (simp add: keepsOverdefined_def)

lemma keepsOverdefined_trans:
  "keepsOverdefined a b \<Longrightarrow> keepsOverdefined b c \<Longrightarrow> keepsOverdefined a c"
  by (simp add: keepsOverdefined_def)

lemma merges_keepsOverdefined:
  assumes "merges s s'"
  shows "keepsOverdefined s s'"
  unfolding keepsOverdefined_def
proof (intro allI impI)
  fix k
  assume "entryOf s k = Overdefined"
  moreover from assms have "latticeLe (entryOf s k) (entryOf s' k)"
    unfolding merges_def risesOn_def by blast
  ultimately show "entryOf s' k = Overdefined" by simp
qed

lemma entryOf_Overdefined: "(entryOf st k = Overdefined) = (latticeValues st k = Some Overdefined)"
  by (simp add: entryOf_def split: option.splits)

lemma isOverdefinedKey_entryOf: "isOverdefinedKey st k = (entryOf st k = Overdefined)"
  by (auto simp: isOverdefinedKey_def entryOf_def split: option.splits elim: isOverdefined.elims)


subsection \<open>Visits of the special operations\<close>

lemma merges_propagateElementLattice:
  "merges st (propagateElementLattice ir connect fieldRefSrc fieldRefDest leaf st)"
proof -
  have f: "merges st (fold (\<lambda>u. mergeLatticeValue (u, n) v) us st)" for n v us
    by (rule fold_rel [where R = merges]) (auto intro: merges_trans merges_mergeLatticeValue)
  show ?thesis
    by (cases leaf)
       (auto simp: propagateElementLattice_def Let_def merges_mergeLatticeValue
          merges_emittedErrors
          split: Value.splits ModuleLike.splits
          intro: merges_trans [OF f merges_mergeLatticeValue]
                 merges_trans [OF merges_mergeLatticeValue merges_mergeLatticeValue])
qed

lemma merges_visitConnectLike:
  assumes "visitConnectLike ir connect st = Some st'"
  shows "merges st st'"
proof -
  have f: "merges st (fold (propagateElementLattice ir connect a b) leaves st)" for a b leaves
    by (rule fold_rel [where R = merges])
       (auto intro: merges_trans merges_propagateElementLattice)
  from assms show ?thesis
    by (auto simp: visitConnectLike_def Let_def f
          split: list.splits Type.splits option.splits
          intro: merges_trans [OF merges_markOverdefinedValue merges_markOverdefinedValue])
qed

lemma merges_visitRegResetOp:
  assumes "visitRegResetOp ir regReset st = Some st'"
  shows "merges st st'"
proof -
  have f: "merges st (fold (\<lambda>(fieldID, destTypeFIRRTL) s.
                              mergeLatticeValue (v, fieldID)
                                (getExtendedLatticeValue s (getSubField a fieldID)
                                   destTypeFIRRTL True) s) leaves st)"
    for v a and leaves :: "(nat \<times> FIRRTLBaseType) list"
    by (rule fold_rel [where R = merges])
       (auto intro: merges_trans merges_mergeLatticeValue)
  from assms show ?thesis
    by (auto simp: visitRegResetOp_def Let_def f
          split: list.splits option.splits if_splits)
qed

lemma merges_visitRefSend: "visitRefSend ir opId st = Some st' \<Longrightarrow> merges st st'"
  by (auto simp: visitRefSend_def merges_mergeLatticeValueValue split: list.splits)

lemma merges_visitRefResolve: "visitRefResolve ir opId st = Some st' \<Longrightarrow> merges st st'"
  by (auto simp: visitRefResolve_def merges_mergeLatticeValueValue split: list.splits)

lemma merges_visitNode: "visitNode ir opId st = Some st' \<Longrightarrow> merges st st'"
  by (auto simp: visitNode_def merges_mergeLatticeValueValue merges_markOverdefinedValue
        split: list.splits if_splits)

subsection \<open>The generic path\<close>

lemma collectOperandConstants_state:
  "entryOf (fst (collectOperandConstants ir operands st)) = entryOf st
   \<and> changedLatticeValueWorklist (fst (collectOperandConstants ir operands st))
       = changedLatticeValueWorklist st
   \<and> executableBlocks (fst (collectOperandConstants ir operands st)) = executableBlocks st
   \<and> fieldRefToUsers (fst (collectOperandConstants ir operands st)) = fieldRefToUsers st"
proof (induction operands arbitrary: st)
  case Nil
  then show ?case by simp
next
  case (Cons operand rest)
  obtain a s1 where l: "latticeValuesAt (getFieldRefFromValue ir operand) st = (a, s1)"
    by (cases "latticeValuesAt (getFieldRefFromValue ir operand) st")
  then have s1: "s1 = snd (latticeValuesAt (getFieldRefFromValue ir operand) st)" by simp
  obtain s2 cs where c: "collectOperandConstants ir rest s1 = (s2, cs)"
    by (cases "collectOperandConstants ir rest s1")
  have e1: "entryOf s1 = entryOf st"
    "changedLatticeValueWorklist s1 = changedLatticeValueWorklist st"
    "executableBlocks s1 = executableBlocks st" "fieldRefToUsers s1 = fieldRefToUsers st"
    by (simp_all add: s1)
  from Cons.IH [of s1] c have e2: "entryOf s2 = entryOf s1"
    "changedLatticeValueWorklist s2 = changedLatticeValueWorklist s1"
    "executableBlocks s2 = executableBlocks s1" "fieldRefToUsers s2 = fieldRefToUsers s1"
    by simp_all
  have "fst (collectOperandConstants ir (operand # rest) st) = s1
        \<or> fst (collectOperandConstants ir (operand # rest) st) = s2"
    using l c by (cases cs) (simp_all del: latticeValuesAt_fst)
  then show ?case using e1 e2 by auto
qed

lemma merges_collectOperandConstants:
  "merges st (fst (collectOperandConstants ir operands st))"
  using collectOperandConstants_state [of ir operands st]
  by (simp add: merges_def pushes_def risesOn_def sameIndex_def)

text \<open>Adopting a fold result changes the entry of that result only, and pushes it.\<close>

lemma adoptFoldResult_eq:
  "\<exists>v s0. adoptFoldResult ir opId r st
            = setLatticeValue (getFieldRefFromValue ir (OpResult opId (fst r))) v s0
          \<and> entryOf s0 = entryOf st
          \<and> changedLatticeValueWorklist s0 = changedLatticeValueWorklist st
          \<and> executableBlocks s0 = executableBlocks st
          \<and> fieldRefToUsers s0 = fieldRefToUsers st"
proof -
  obtain i foldResult where r: "r = (i, foldResult)" by (cases r)
  show ?thesis
  proof (cases foldResult)
    case (FoldAttribute foldAttr)
    then show ?thesis
      unfolding r by (cases foldAttr) (auto simp: adoptFoldResult_def)
  next
    case (FoldValue x)
    let ?s0 = "snd (latticeValuesAt (getFieldRefFromValue ir x) st)"
    have "adoptFoldResult ir opId r st
            = setLatticeValue (getFieldRefFromValue ir (OpResult opId (fst r)))
                (entryOf st (getFieldRefFromValue ir x)) ?s0"
      unfolding r FoldValue by (simp add: adoptFoldResult_def split_beta)
    moreover have "entryOf ?s0 = entryOf st
          \<and> changedLatticeValueWorklist ?s0 = changedLatticeValueWorklist st
          \<and> executableBlocks ?s0 = executableBlocks st
          \<and> fieldRefToUsers ?s0 = fieldRefToUsers st"
      by simp
    ultimately show ?thesis by blast
  qed
qed


lemma adoptFoldResult_other:
  assumes "k \<noteq> getFieldRefFromValue ir (OpResult opId (fst r))"
  shows "entryOf (adoptFoldResult ir opId r st) k = entryOf st k"
proof -
  from adoptFoldResult_eq [of ir opId r st] obtain v s0 where
    a: "adoptFoldResult ir opId r st
          = setLatticeValue (getFieldRefFromValue ir (OpResult opId (fst r))) v s0"
    and e: "entryOf s0 = entryOf st"
    by blast
  show ?thesis
    unfolding a using assms by (simp add: setLatticeValue_entryOf e)
qed

lemma adopts_refl [simp]: "adopts A s s"
  by (simp add: adopts_def)




lemma merges_adopts: "merges s s' \<Longrightarrow> pushes s s' \<and> sameIndex s s'"
  by (simp add: merges_def)

lemma merges_forEachM_markOverdefinedValue:
  "forEachM (markOverdefinedValue ir) vs st = Some st' \<Longrightarrow> merges st st'"
  by (rule forEachM_rel [where R = merges and f = "markOverdefinedValue ir" and xs = vs])
     (auto intro: merges_trans merges_markOverdefinedValue)

text \<open>A visit is a sequence of merges and marks, or it adopts the results of a fold.\<close>

lemma visitOperation_cases:
  assumes v: "visitOperation ir opId st = Some st'"
  shows "merges st st'
     \<or> (\<not> list_all (\<lambda>value. isOverdefinedKey st (getFieldRefFromValue ir value))
              (getResults opId (getOp ir opId))
        \<and> (\<exists>cs rs. opFold ir opId cs = Some rs \<and> rs \<noteq> []
              \<and> length rs = getNumResults (getOp ir opId)
              \<and> st' = fold (adoptFoldResult ir opId) (enumerate 0 rs)
                        (fst (collectOperandConstants ir (getOperands (getOp ir opId)) st))))"
proof -
  let ?op = "getOp ir opId"
  consider (connect) "opKind ?op = FConnectLike"
    | (regReset) "opKind ?op = RegResetOp"
    | (send) "opKind ?op = RefSendOp"
    | (resolve) "opKind ?op = RefResolveOp"
    | (node) "opKind ?op = NodeOp"
    | (reg) "opKind ?op = RegOp"
    | (generic) "opKind ?op \<notin> {FConnectLike, RegResetOp, RefSendOp, RefResolveOp, NodeOp, RegOp}"
    by blast
  then show ?thesis
  proof cases
    case connect
    with v show ?thesis by (simp add: visitOperation_def merges_visitConnectLike)
  next
    case regReset
    with v show ?thesis by (simp add: visitOperation_def merges_visitRegResetOp)
  next
    case send
    with v show ?thesis by (simp add: visitOperation_def merges_visitRefSend)
  next
    case resolve
    with v show ?thesis by (simp add: visitOperation_def merges_visitRefResolve)
  next
    case node
    with v show ?thesis by (simp add: visitOperation_def merges_visitNode)
  next
    case reg
    with v show ?thesis by (simp add: visitOperation_def)
  next
    case generic
    let ?all = "list_all (\<lambda>value. isOverdefinedKey st (getFieldRefFromValue ir value))
                  (getResults opId ?op)"
    show ?thesis
    proof (cases ?all)
      case True
      with v generic show ?thesis by (simp add: visitOperation_def Let_def)
    next
      case False
      obtain s1 cs where c: "collectOperandConstants ir (getOperands ?op) st = (s1, cs)"
        by (cases "collectOperandConstants ir (getOperands ?op) st")
      then have s1: "s1 = fst (collectOperandConstants ir (getOperands ?op) st)" by simp
      have m1: "merges st s1" unfolding s1 by (rule merges_collectOperandConstants)
      show ?thesis
      proof (cases cs)
        case None
        with v generic False c have "st' = s1" by (simp add: visitOperation_def Let_def)
        with m1 show ?thesis by simp
      next
        case (Some operandConstants)
        show ?thesis
        proof (cases "opFold ir opId operandConstants")
          case None
          with v generic False c Some
          have "forEachM (markOverdefinedValue ir) (getResults opId ?op) s1 = Some st'"
            by (simp add: visitOperation_def Let_def)
          then have "merges s1 st'" by (rule merges_forEachM_markOverdefinedValue)
          with m1 show ?thesis by (blast intro: merges_trans)
        next
          case (Some rs)
          with v generic False c \<open>cs = Some operandConstants\<close>
          have "rs \<noteq> [] \<and> length rs = getNumResults ?op
                \<and> st' = fold (adoptFoldResult ir opId) (enumerate 0 rs) s1"
            by (simp add: visitOperation_def Let_def split: if_splits)
          with False Some show ?thesis unfolding s1 by blast
        qed
      qed
    qed
  qed
qed



text \<open>When a fold succeeds only for operations with at most one result, a visit keeps
  every Overdefined entry.\<close>

lemma visitOperation_keepsOverdefined:
  assumes v: "visitOperation ir opId st = Some st'"
    and single: "\<And>cs rs. opFold ir opId cs = Some rs \<Longrightarrow> getNumResults (getOp ir opId) \<le> 1"
  shows "keepsOverdefined st st'"
  using visitOperation_cases [OF v]
proof
  assume "merges st st'"
  then show ?thesis by (rule merges_keepsOverdefined)
next
  assume "\<not> list_all (\<lambda>value. isOverdefinedKey st (getFieldRefFromValue ir value))
              (getResults opId (getOp ir opId))
        \<and> (\<exists>cs rs. opFold ir opId cs = Some rs \<and> rs \<noteq> []
              \<and> length rs = getNumResults (getOp ir opId)
              \<and> st' = fold (adoptFoldResult ir opId) (enumerate 0 rs)
                        (fst (collectOperandConstants ir (getOperands (getOp ir opId)) st)))"
  then obtain cs rs where
    notAll: "\<not> list_all (\<lambda>value. isOverdefinedKey st (getFieldRefFromValue ir value))
                 (getResults opId (getOp ir opId))"
    and f: "opFold ir opId cs = Some rs" and ne: "rs \<noteq> []"
    and len: "length rs = getNumResults (getOp ir opId)"
    and st': "st' = fold (adoptFoldResult ir opId) (enumerate 0 rs)
                  (fst (collectOperandConstants ir (getOperands (getOp ir opId)) st))"
    by blast
  from single [OF f] ne len have one: "getNumResults (getOp ir opId) = 1"
    by (cases rs) auto
  with len obtain r where rs: "rs = [r]" by (cases rs) auto
  let ?key = "getFieldRefFromValue ir (OpResult opId 0)"
  let ?s1 = "fst (collectOperandConstants ir (getOperands (getOp ir opId)) st)"
  from notAll one have notOver: "entryOf st ?key \<noteq> Overdefined"
    by (simp add: getResults_def isOverdefinedKey_entryOf)
  have st1: "st' = adoptFoldResult ir opId (0, r) ?s1"
    unfolding st' rs by (simp add: enumerate_eq_zip)
  have same: "entryOf st' k = entryOf st k" if "k \<noteq> ?key" for k
    using adoptFoldResult_other [of k ir opId "(0, r)" ?s1] that
      collectOperandConstants_state [of ir "getOperands (getOp ir opId)" st]
    unfolding st1 by simp
  show ?thesis
    unfolding keepsOverdefined_def
  proof (intro allI impI)
    fix k
    assume o: "entryOf st k = Overdefined"
    with notOver have "k \<noteq> ?key" by auto
    with same o show "entryOf st' k = Overdefined" by simp
  qed
qed

subsection \<open>What the initial scan changes\<close>

lemma scans_refl [simp]: "scans ir s s"
  by (simp add: scans_def)

lemma scans_trans:
  assumes "scans ir a b" and "scans ir b c"
  shows "scans ir a c"
  unfolding scans_def
proof (intro conjI allI impI)
  show "pushes a c" using assms by (auto simp: scans_def intro: pushes_trans)
  show "risesOn UNIV a c" using assms by (auto simp: scans_def intro: risesOn_trans)
  show "executableBlocks a \<subseteq> executableBlocks c" using assms by (auto simp: scans_def)
  show "set (fieldRefToUsers a k) \<subseteq> set (fieldRefToUsers c k)" for k
    using assms unfolding scans_def by blast
  show "u \<in> set (fieldRefToUsers a k) \<or> getOperands (getOp ir u) \<noteq> []"
    if "u \<in> set (fieldRefToUsers c k)" for k u
    using assms that unfolding scans_def by blast
qed

lemma merges_scans: "merges s s' \<Longrightarrow> scans ir s s'"
  by (simp add: merges_def scans_def sameIndex_def)

lemma entryOf_fields [simp]:
  "entryOf (st\<lparr>executableBlocks := e\<rparr>) = entryOf st"
  "entryOf (st\<lparr>fieldRefToUsers := u\<rparr>) = entryOf st"
  "entryOf (st\<lparr>resultPortToInstanceResultMapping := m\<rparr>) = entryOf st"
  "entryOf (st\<lparr>emittedErrors := es\<rparr>) = entryOf st"
  by (rule ext, simp add: entryOf_def)+

lemma scans_executable: "scans ir s (s\<lparr>executableBlocks := insert b (executableBlocks s)\<rparr>)"
  by (auto simp: scans_def pushes_def risesOn_def)

lemma scans_mapping: "scans ir s (s\<lparr>resultPortToInstanceResultMapping := m\<rparr>)"
  by (auto simp: scans_def pushes_def risesOn_def)

lemma addUser_fields [simp]:
  "entryOf (addUser key opId s) = entryOf s"
  "executableBlocks (addUser key opId s) = executableBlocks s"
  "changedLatticeValueWorklist (addUser key opId s) = changedLatticeValueWorklist s"
  "fieldRefToUsers (addUser key opId s) = (fieldRefToUsers s)(key := fieldRefToUsers s key @ [opId])"
  by (simp_all add: addUser_def)

lemma scans_addUser:
  assumes "getOperands (getOp ir opId) \<noteq> []"
  shows "scans ir s (addUser key opId s)"
  using assms by (auto simp: scans_def pushes_def risesOn_def)

lemma scans_indexOperand:
  assumes "getOperands (getOp ir opId) \<noteq> []"
  shows "scans ir s (indexOperand ir opId operand s)"
proof -
  have "scans ir s (fold (\<lambda>leaf. addUser (getSubField fieldRef (fst leaf)) opId) leaves s)"
    for fieldRef and leaves :: "(nat \<times> FIRRTLBaseType) list"
  proof (rule fold_rel [where R = "scans ir"])
    show "scans ir s s" for s by simp
    show "scans ir a c" if "scans ir a b" "scans ir b c" for a b c
      using that by (rule scans_trans)
    show "scans ir s (addUser (getSubField fieldRef (fst x)) opId s)"
      for x :: "nat \<times> FIRRTLBaseType" and s
      by (rule scans_addUser) (rule assms)
  qed
  then show ?thesis
    by (simp add: indexOperand_def split: Type.splits)
qed

lemma scans_indexOperands: "scans ir s (indexOperands ir opId s)"
  unfolding indexOperands_def
proof (rule fold_rel [where R = "scans ir"])
  show "scans ir s s" for s by simp
  show "scans ir a c" if "scans ir a b" "scans ir b c" for a b c
    using that by (rule scans_trans)
  show "scans ir s (indexOperand ir opId operand s)"
    if "operand \<in> set (getOperands (getOp ir opId))" for operand s
    by (rule scans_indexOperand) (use that in auto)
qed

lemma indexOperand_lattice [simp]:
  "entryOf (indexOperand ir opId operand s) = entryOf s"
  "executableBlocks (indexOperand ir opId operand s) = executableBlocks s"
proof -
  have "entryOf (fold (\<lambda>leaf. addUser (getSubField fieldRef (fst leaf)) opId) leaves s)
          = entryOf s
        \<and> executableBlocks (fold (\<lambda>leaf. addUser (getSubField fieldRef (fst leaf)) opId)
                               leaves s) = executableBlocks s"
    for fieldRef and leaves :: "(nat \<times> FIRRTLBaseType) list"
    by (induction leaves arbitrary: s) simp_all
  then show "entryOf (indexOperand ir opId operand s) = entryOf s"
    "executableBlocks (indexOperand ir opId operand s) = executableBlocks s"
    by (simp_all add: indexOperand_def split: Type.splits)
qed

lemma indexOperands_lattice [simp]:
  "entryOf (indexOperands ir opId s) = entryOf s"
  "executableBlocks (indexOperands ir opId s) = executableBlocks s"
proof -
  have "entryOf (fold (indexOperand ir opId) operands s) = entryOf s
        \<and> executableBlocks (fold (indexOperand ir opId) operands s) = executableBlocks s"
    for operands
    by (induction operands arbitrary: s) simp_all
  then show "entryOf (indexOperands ir opId s) = entryOf s"
    "executableBlocks (indexOperands ir opId s) = executableBlocks s"
    by (simp_all add: indexOperands_def)
qed

text \<open>A step of the scan that marks no block executable.\<close>

lemma merges_scans_exec:
  "merges s s' \<Longrightarrow> scans ir s s' \<and> executableBlocks s' = executableBlocks s"
  by (simp add: merges_scans) (simp add: merges_def sameIndex_def)

lemma scans_exec_trans:
  "scans ir a b \<and> executableBlocks b = executableBlocks a
   \<Longrightarrow> scans ir b c \<and> executableBlocks c = executableBlocks b
   \<Longrightarrow> scans ir a c \<and> executableBlocks c = executableBlocks a"
  by (auto intro: scans_trans)

lemma merges_markWireOrRegOp: "markWireOrRegOp ir w s = Some s' \<Longrightarrow> merges s s'"
  by (auto simp: markWireOrRegOp_def Let_def
        split: if_splits Type.splits FIRRTLType.splits
        intro: merges_markOverdefinedValue merges_markUnwrittenValue)

lemma merges_markConstantOp: "markConstantOp ir c s = Some s' \<Longrightarrow> merges s s'"
  by (auto simp: markConstantOp_def merges_mergeLatticeValue split: OpKind.splits)

lemma merges_markSpecialConstantOp: "markSpecialConstantOp ir c s = Some s' \<Longrightarrow> merges s s'"
  by (auto simp: markSpecialConstantOp_def merges_mergeLatticeValue split: OpKind.splits)

lemma merges_markInvalidValueOp: "markInvalidValueOp ir c s = Some s' \<Longrightarrow> merges s s'"
  by (simp add: markInvalidValueOp_def merges_markOverdefinedValue)

lemma merges_markMemOp: "markMemOp ir c s = Some s' \<Longrightarrow> merges s s'"
  by (simp add: markMemOp_def merges_forEachM_markOverdefinedValue)

lemma markInstanceOp_cases:
  assumes "markInstanceOp ir mb inst s = Some s'"
  shows "(scans ir s s' \<and> executableBlocks s' = executableBlocks s)
       \<or> (\<exists>callee s1. mb callee s = Some s1
             \<and> scans ir s1 s' \<and> executableBlocks s' = executableBlocks s1)"
proof (cases "getReferencedModule ir inst")
  case (FExtModuleOp ds)
  let ?f = "\<lambda>resultNo s.
               case getPortDirection ir (FExtModuleOp ds) resultNo of
                 None \<Rightarrow> None
               | Some In \<Rightarrow> Some s
               | Some Out \<Rightarrow> markOverdefinedValue ir (OpResult inst resultNo) s"
  from assms FExtModuleOp
  have run: "forEachM ?f [0 ..< getNumResults (getOp ir inst)] s = Some s'"
    by (simp add: markInstanceOp_def)
  have "merges s s'"
  proof (rule forEachM_rel [where R = merges, OF _ _ _ run])
    show "merges s s" for s by simp
    show "merges a c" if "merges a b" "merges b c" for a b c using that by (rule merges_trans)
    show "merges s s'" if "?f x s = Some s'" for x s s'
      using that
      by (auto split: option.splits Direction.splits intro: merges_markOverdefinedValue)
  qed
  then show ?thesis by (simp add: merges_scans_exec)
next
  case (FModuleOp fModule)
  let ?f = "\<lambda>resultNo s.
              case getPortDirection ir (FModuleOp fModule) resultNo of
                None \<Rightarrow> None
              | Some In \<Rightarrow> Some s
              | Some Out \<Rightarrow>
                  Some (mergeLatticeValueValue ir (OpResult inst resultNo)
                          (BlockArgument fModule resultNo)
                          (s\<lparr>resultPortToInstanceResultMapping :=
                               (resultPortToInstanceResultMapping s)
                                 (BlockArgument fModule resultNo :=
                                    resultPortToInstanceResultMapping s
                                      (BlockArgument fModule resultNo)
                                    @ [OpResult inst resultNo])\<rparr>))"
  from assms FModuleOp
  have "(case mb fModule s of None \<Rightarrow> None
         | Some s1 \<Rightarrow> forEachM ?f [0 ..< getNumResults (getOp ir inst)] s1) = Some s'"
    unfolding markInstanceOp_def Let_def by simp
  then obtain s1 where mb: "mb fModule s = Some s1"
    and run: "forEachM ?f [0 ..< getNumResults (getOp ir inst)] s1 = Some s'"
    by (cases "mb fModule s") simp_all
  have "scans ir s1 s' \<and> executableBlocks s' = executableBlocks s1"
  proof (rule forEachM_rel [where R = "\<lambda>a b. scans ir a b
                                          \<and> executableBlocks b = executableBlocks a",
                OF _ _ _ run])
    show "scans ir s s \<and> executableBlocks s = executableBlocks s" for s by simp
    show "scans ir a c \<and> executableBlocks c = executableBlocks a"
      if "scans ir a b \<and> executableBlocks b = executableBlocks a"
        "scans ir b c \<and> executableBlocks c = executableBlocks b" for a b c
      using that by (rule scans_exec_trans)
    show "scans ir s s' \<and> executableBlocks s' = executableBlocks s" if "?f x s = Some s'"
      for x s s'
    proof -
      have m: "scans ir s (mergeLatticeValueValue ir a b (s\<lparr>resultPortToInstanceResultMapping := m\<rparr>))
               \<and> executableBlocks (mergeLatticeValueValue ir a b
                                     (s\<lparr>resultPortToInstanceResultMapping := m\<rparr>))
                   = executableBlocks s" for a b m
        using merges_scans_exec
                [OF merges_mergeLatticeValueValue
                      [of "s\<lparr>resultPortToInstanceResultMapping := m\<rparr>" ir a b], of ir]
          scans_mapping [of ir s m]
        by (auto intro: scans_trans)
      from that show ?thesis
        by (auto split: option.splits Direction.splits simp: m)
    qed
  qed
  with mb show ?thesis by blast
qed

lemma markOp_cases:
  assumes "markOp ir mb y s = Some s'"
  shows "(scans ir s s' \<and> executableBlocks s' = executableBlocks s)
       \<or> (\<exists>callee s1. mb callee s = Some s1
             \<and> scans ir s1 s' \<and> executableBlocks s' = executableBlocks s1)"
proof -
  let ?op = "getOp ir y"
  let ?inner = "if isWireOrReg ?op then markWireOrRegOp ir y s
            else case opKind ?op of
                   ConstantOp _ \<Rightarrow> markConstantOp ir y s
                 | SpecialConstantOp _ \<Rightarrow> markSpecialConstantOp ir y s
                 | InvalidValueOp \<Rightarrow> markInvalidValueOp ir y s
                 | InstanceOp \<Rightarrow> markInstanceOp ir mb y s
                 | MemOp \<Rightarrow> markMemOp ir y s
                 | UnrealizedConversionCastOp \<Rightarrow>
                     forEachM (markOverdefinedValue ir) (getResults y ?op) s
                 | VerbatimExprOp \<Rightarrow> markOverdefinedValue ir (OpResult y 0) s
                 | VerbatimWireOp \<Rightarrow> markOverdefinedValue ir (OpResult y 0) s
                 | _ \<Rightarrow> Some s"
  from assms obtain s2 where inner: "?inner = Some s2" and s': "s' = indexOperands ir y s2"
    by (auto simp: markOp_def Let_def split: option.splits)
  have idx: "scans ir s2 s' \<and> executableBlocks s' = executableBlocks s2"
    unfolding s' by (simp add: scans_indexOperands)
  have "merges s s2 \<or> (\<not> isWireOrReg ?op \<and> opKind ?op = InstanceOp
                          \<and> markInstanceOp ir mb y s = Some s2)"
    using inner
    by (auto split: if_splits OpKind.splits
          intro: merges_markWireOrRegOp merges_markConstantOp merges_markSpecialConstantOp
            merges_markInvalidValueOp merges_markMemOp merges_forEachM_markOverdefinedValue
            merges_markOverdefinedValue)
  then show ?thesis
  proof
    assume "merges s s2"
    then have "scans ir s s2 \<and> executableBlocks s2 = executableBlocks s"
      by (rule merges_scans_exec)
    with idx show ?thesis by (auto intro: scans_trans)
  next
    assume "\<not> isWireOrReg ?op \<and> opKind ?op = InstanceOp
            \<and> markInstanceOp ir mb y s = Some s2"
    then have "markInstanceOp ir mb y s = Some s2" by simp
    from markInstanceOp_cases [OF this] show ?thesis
    proof
      assume "scans ir s s2 \<and> executableBlocks s2 = executableBlocks s"
      with idx show ?thesis by (auto intro: scans_trans)
    next
      assume "\<exists>callee s1. mb callee s = Some s1
                \<and> scans ir s1 s2 \<and> executableBlocks s2 = executableBlocks s1"
      then obtain callee s1 where c: "mb callee s = Some s1" "scans ir s1 s2"
        "executableBlocks s2 = executableBlocks s1" by blast
      from c(2,3) idx have "scans ir s1 s' \<and> executableBlocks s' = executableBlocks s1"
        by (auto intro: scans_trans)
      with c(1) show ?thesis by blast
    qed
  qed
qed

lemma markOp_scans:
  assumes "markOp ir mb y s = Some s'"
    and "\<And>blk a b. mb blk a = Some b \<Longrightarrow> scans ir a b"
  shows "scans ir s s'"
  using markOp_cases [OF assms(1)] assms(2)
  by (blast intro: scans_trans)

lemma markBlockExecutable_scans:
  "markBlockExecutable ir depth block st = Some st' \<Longrightarrow> scans ir st st'"
proof (induction depth arbitrary: block st st')
  case 0
  then show ?case by (simp split: if_splits)
next
  case (Suc depth)
  show ?case
  proof (cases "block \<in> executableBlocks st")
    case True
    with Suc.prems show ?thesis by simp
  next
    case False
    let ?st0 = "st\<lparr>executableBlocks := insert block (executableBlocks st)\<rparr>"
    let ?p = "\<lambda>(argNo, port) s.
                  if portHasDontTouch port
                  then markOverdefinedValue ir (BlockArgument block argNo) s else Some s"
    from Suc.prems False obtain st1 where
      ports: "forEachM ?p (enumerate 0 (getPorts (getModule ir block))) ?st0 = Some st1"
      and body: "forEachM (markOp ir (markBlockExecutable ir depth))
                   (getBody (getModule ir block)) st1 = Some st'"
      by (auto split: option.splits)
    have "merges ?st0 st1"
    proof (rule forEachM_rel [where R = merges, OF _ _ _ ports])
      show "merges s s" for s by simp
      show "merges a c" if "merges a b" "merges b c" for a b c using that by (rule merges_trans)
      show "merges s s'" if "?p x s = Some s'" for x s s'
        using that by (cases x) (auto split: if_splits intro: merges_markOverdefinedValue)
    qed
    then have a: "scans ir st st1"
      using scans_executable [of ir st block] by (auto intro: scans_trans merges_scans)
    have "scans ir st1 st'"
    proof (rule forEachM_rel [where R = "scans ir", OF _ _ _ body])
      show "scans ir s s" for s by simp
      show "scans ir a c" if "scans ir a b" "scans ir b c" for a b c
        using that by (rule scans_trans)
      show "scans ir s s'" if "markOp ir (markBlockExecutable ir depth) x s = Some s'"
        for x s s'
        using that by (rule markOp_scans) (rule Suc.IH)
    qed
    with a show ?thesis by (rule scans_trans)
  qed
qed

lemma markPublicPorts_scans:
  assumes "markPublicPorts ir depth st = Some st'"
  shows "scans ir st st'"
proof -
  let ?f = "\<lambda>module s.
          if isPublic (getModule ir module) then
            (case markBlockExecutable ir depth module s of
               None \<Rightarrow> None
             | Some s' \<Rightarrow>
                 forEachM (\<lambda>argNo. markOverdefinedValue ir (BlockArgument module argNo))
                   [0 ..< length (getPorts (getModule ir module))] s')
          else Some s"
  from assms have run: "forEachM ?f (circuitModules ir) st = Some st'"
    by (simp add: markPublicPorts_def)
  show ?thesis
  proof (rule forEachM_rel [where R = "scans ir", OF _ _ _ run])
    show "scans ir s s" for s by simp
    show "scans ir a c" if "scans ir a b" "scans ir b c" for a b c
      using that by (rule scans_trans)
    show "scans ir s s'" if "?f x s = Some s'" for x s s'
    proof (cases "isPublic (getModule ir x)")
      case False
      with that show ?thesis by simp
    next
      case True
      with that obtain s1 where m: "markBlockExecutable ir depth x s = Some s1"
        and p: "forEachM (\<lambda>argNo. markOverdefinedValue ir (BlockArgument x argNo))
                  [0 ..< length (getPorts (getModule ir x))] s1 = Some s'"
        by (auto split: option.splits)
      have "merges s1 s'"
        by (rule forEachM_rel [where R = merges, OF _ _ _ p])
           (auto intro: merges_trans merges_markOverdefinedValue)
      with markBlockExecutable_scans [OF m] show ?thesis
        by (auto intro: scans_trans merges_scans)
    qed
  qed
qed



subsection \<open>What the initial scan establishes and the worklist loop keeps\<close>

lemma getSubField_0 [simp]: "getSubField k 0 = k"
  by (simp add: getSubField_def)






subsection \<open>The worklist loop and a connect into an instance port\<close>

lemma advances_refl [simp]: "advances A s s"
  by (simp add: advances_def)


lemma merges_advances: "merges a b \<Longrightarrow> advances A a b"
  unfolding merges_def advances_def by (blast intro: risesOn_subset)











subsection \<open>Initial state of wires and registers\<close>

text \<open>
  C2. What the code does where the claim expects the Unwritten state: for a wire or
  register with a ground type and no do-not-touch marker, \<^verbatim>\<open>markWireOrRegOp\<close> returns
  with the lattice entry of the result Overdefined, because \<^verbatim>\<open>markUnwritten(Value)\<close>
  calls \<^verbatim>\<open>markOverdefined\<close> on every leaf.
\<close>

theorem markWireOrRegOp_ground_Overdefined:
  assumes "0 < getNumResults (getOp ir w)"
    and "getType ir (OpResult w 0) = FIRRTL (BaseType t)"
    and "isGround t"
    and "\<not> opHasDontTouch (getOp ir w)"
  shows "\<exists>st'. markWireOrRegOp ir w st = Some st'
           \<and> latticeValues st' (getSubField (getFieldRefFromValue ir (OpResult w 0)) 0)
               = Some Overdefined"
  using assms
  by (simp add: markWireOrRegOp_def markUnwrittenValue_def isGround_getPassiveType
        foreachFIRRTLGroundType_def markOverdefined_at)

theorem markWireOrRegOp_ground_Overdefined_witness:
  "0 < getNumResults (getOp wireIR 0)
   \<and> getType wireIR (OpResult 0 0) = FIRRTL (BaseType (UIntType (Some 8)))
   \<and> isGround (UIntType (Some 8))
   \<and> \<not> opHasDontTouch (getOp wireIR 0)
   \<and> (\<exists>st'. markWireOrRegOp wireIR 0 emptyPass = Some st'
           \<and> latticeValues st' (getSubField (getFieldRefFromValue wireIR (OpResult 0 0)) 0)
               = Some Overdefined)"
  using markWireOrRegOp_ground_Overdefined [of wireIR 0 "UIntType (Some 8)" emptyPass]
  by (simp add: wireIR_def mkIR_def mkOp_def uint8_def)

subsection \<open>Width extension\<close>

text \<open>Extending to a wider type keeps the number the constant denotes.\<close>

lemma extOrTruncZeroWidth_preserves_value:
  assumes lt: "bitWidth v < width" and rng: "bits v < 2 ^ bitWidth v"
  shows "getExtValue (extOrTruncZeroWidth v width) = getExtValue v"
proof (cases "bitWidth v = 0")
  case True
  with rng show ?thesis
    by (simp add: extOrTruncZeroWidth_def getExtValue_def)
next
  case nz: False
  show ?thesis
  proof (cases "isUnsigned v \<or> bits v < 2 ^ (bitWidth v - 1)")
    case True
    have pw: "(2::nat) ^ (bitWidth v - 1) \<le> 2 ^ (width - 1)"
      using lt by (intro power_increasing) auto
    have keep: "extOrTruncZeroWidth v width = v\<lparr>bitWidth := width\<rparr>"
      using True nz lt by (simp add: extOrTruncZeroWidth_def extOrTrunc_def)
    have small: "isUnsigned v \<or> bits v < 2 ^ (width - 1)"
      using True pw by (meson less_le_trans)
    show ?thesis
      unfolding keep using True small by (simp add: getExtValue_def)
  next
    case False
    have le2: "(2::nat) ^ bitWidth v \<le> 2 ^ (width - 1)"
      using lt by (intro power_increasing) auto
    have w: "(2::nat) ^ width = 2 * 2 ^ (width - 1)"
      using lt by (cases width) auto
    have ge: "\<not> bits v + (2 ^ width - 2 ^ bitWidth v) < 2 ^ (width - 1)"
      using le2 w by linarith
    have le3: "(2::nat) ^ bitWidth v \<le> 2 ^ width"
      using lt by (intro power_increasing) auto
    define d where "d = (2::nat) ^ width - 2 ^ bitWidth v"
    have split: "(2::nat) ^ width = 2 ^ bitWidth v + d"
      using le3 by (simp add: d_def)
    have "int (bits v + d) - int (2 ^ width) = int (bits v) - int (2 ^ bitWidth v)"
      unfolding split by simp
    then have val: "int (bits v + (2 ^ width - 2 ^ bitWidth v)) - 2 ^ width
        = int (bits v) - 2 ^ bitWidth v"
      by (simp add: d_def)
    have ext: "extOrTruncZeroWidth v width
        = v\<lparr>bitWidth := width, bits := bits v + (2 ^ width - 2 ^ bitWidth v)\<rparr>"
      using False nz lt by (simp add: extOrTruncZeroWidth_def extOrTrunc_def)
    show ?thesis
      unfolding ext using False ge val by (simp add: getExtValue_def)
  qed
qed

text \<open>The first half of C4: a constant narrower than the destination comes back with the
  destination's width, the source's signedness and the same numeric value.\<close>

lemma getExtendedLatticeValue_extends:
  assumes "latticeValues st value = Some (Constant (IntegerAttr c))"
    and "getBitWidthOrSentinel destType = int width"
    and "bitWidth c < width" and "bits c < 2 ^ bitWidth c" and "width < 2 ^ 32"
  shows "\<exists>c'. getExtendedLatticeValue st value destType allowTruncation
                = Constant (IntegerAttr c')
           \<and> bitWidth c' = width \<and> isUnsigned c' = isUnsigned c
           \<and> getExtValue c' = getExtValue c"
proof -
  have "int width < 2 ^ 32"
    using assms(5) by (metis of_nat_less_iff of_nat_numeral of_nat_power)
  then have m: "int width mod 2 ^ 32 = int width"
    by (intro mod_pos_pos_trivial) simp_all
  have r: "getExtendedLatticeValue st value destType allowTruncation
      = Constant (IntegerAttr (extOrTruncZeroWidth c width))"
    using assms(1,2,3) m by (simp add: getExtendedLatticeValue_def Let_def)
  have "bitWidth (extOrTruncZeroWidth c width) = width
      \<and> isUnsigned (extOrTruncZeroWidth c width) = isUnsigned c"
    using assms(3) by (simp add: extOrTruncZeroWidth_def extOrTrunc_def)
  with r extOrTruncZeroWidth_preserves_value [OF assms(3,4)] show ?thesis by simp
qed

text \<open>The parameter \<^verbatim>\<open>allowTruncation\<close> is never read.\<close>

lemma getExtendedLatticeValue_ignores_allowTruncation:
  "getExtendedLatticeValue st value destType True
     = getExtendedLatticeValue st value destType False"
  by (simp add: getExtendedLatticeValue_def)

text \<open>
  C4. What the code does where the claim expects no truncation: the 8-bit constant 255
  asked for at \<^verbatim>\<open>UInt<4>\<close> with \<^verbatim>\<open>allowTruncation = false\<close> comes back as the 4-bit
  constant 15.
\<close>

theorem getExtendedLatticeValue_truncates:
  "getExtendedLatticeValue
     (emptyPass\<lparr>latticeValues := [(OpResult 0 0, 0) \<mapsto> Constant (IntegerAttr (lit8 255))]\<rparr>)
     (OpResult 0 0, 0) (UIntType (Some 4)) False
   = Constant (IntegerAttr \<lparr>bitWidth = 4, isUnsigned = True, bits = 15\<rparr>)"
  by (simp add: getExtendedLatticeValue_def emptyPass_def extOrTruncZeroWidth_def
        extOrTrunc_def lit8_def)

text \<open>
  C10. A Constant entry holding a non-boolean integer, asked for at a destination type
  of unknown width, comes back Overdefined.
\<close>

theorem getExtendedLatticeValue_unknown_width:
  "latticeValues st value = Some (Constant (IntegerAttr c)) \<Longrightarrow>
   getBitWidthOrSentinel destType = -1 \<Longrightarrow>
   getExtendedLatticeValue st value destType allowTruncation = Overdefined"
  by (simp add: getExtendedLatticeValue_def)

theorem getExtendedLatticeValue_unknown_width_witness:
  "latticeValues nodePass (OpResult 0 0, 0) = Some (Constant (IntegerAttr (lit8 3)))
   \<and> getBitWidthOrSentinel (UIntType None) = -1
   \<and> getExtendedLatticeValue nodePass (OpResult 0 0, 0) (UIntType None) False = Overdefined"
  using getExtendedLatticeValue_unknown_width
          [of nodePass "(OpResult 0 0, 0)" "lit8 3" "UIntType None" False]
  by (simp add: nodePass_def emptyPass_def)


subsection \<open>Connects with an unhandled destination\<close>

lemma propagate_unhandled:
  assumes "fst fieldRefDest = OpResult d r"
    and "\<not> isWireOrReg (getOp ir d)" and "opKind (getOp ir d) \<noteq> InstanceOp"
    and "opKind (getOp ir d) \<noteq> MemOp"
  shows "propagateElementLattice ir connect fieldRefSrc fieldRefDest leaf st
    = (if isUnknown (getExtendedLatticeValue st
                       (getSubField fieldRefSrc (fst leaf)) (getPassiveType (snd leaf)) False)
       then st
       else st\<lparr>emittedErrors := emittedErrors st
                 @ [(connect, ''connectlike operation unhandled by IMConstProp'')]\<rparr>)"
  using assms by (cases leaf) (simp add: propagateElementLattice_def Let_def)

lemma fold_propagate_unhandled:
  assumes "fst fieldRefDest = OpResult d r"
    and "\<not> isWireOrReg (getOp ir d)" and "opKind (getOp ir d) \<noteq> InstanceOp"
    and "opKind (getOp ir d) \<noteq> MemOp"
  shows "fold (propagateElementLattice ir connect fieldRefSrc fieldRefDest) leaves st
    = st\<lparr>emittedErrors := emittedErrors st @
         map (\<lambda>_. (connect, ''connectlike operation unhandled by IMConstProp''))
           (filter (\<lambda>leaf. \<not> isUnknown (getExtendedLatticeValue st
                       (getSubField fieldRefSrc (fst leaf)) (getPassiveType (snd leaf)) False))
              leaves)\<rparr>"
proof (induction leaves arbitrary: st)
  case Nil
  then show ?case by simp
next
  case (Cons leaf leaves)
  let ?u = "isUnknown (getExtendedLatticeValue st
              (getSubField fieldRefSrc (fst leaf)) (getPassiveType (snd leaf)) False)"
  show ?case
  proof (cases ?u)
    case True
    then have "propagateElementLattice ir connect fieldRefSrc fieldRefDest leaf st = st"
      by (simp add: propagate_unhandled [OF assms])
    with True show ?thesis by (simp add: Cons.IH)
  next
    case False
    then have "propagateElementLattice ir connect fieldRefSrc fieldRefDest leaf st
        = st\<lparr>emittedErrors := emittedErrors st
                 @ [(connect, ''connectlike operation unhandled by IMConstProp'')]\<rparr>"
      by (simp add: propagate_unhandled [OF assms])
    with False show ?thesis
      by (simp add: Cons.IH getExtendedLatticeValue_emittedErrors)
  qed
qed

text \<open>
  C8, as the code has it. When the FIRRTL-typed destination of a connect is rooted at a
  result of an operation that is none of the recognized kinds (wire or register,
  instance, memory), \<^verbatim>\<open>visitConnectLike\<close> changes nothing but the diagnostics: it emits
  the error on the connect for every ground leaf of the destination whose (extended)
  source lattice value is not Unknown. No lattice entry is marked Overdefined.
\<close>

theorem visitConnectLike_unhandled_destination:
  assumes "getOperands (getOp ir connect) = dest # src # rest"
    and "getType ir dest = FIRRTL destTypeFIRRTL"
    and "fst (getFieldRefFromValue ir dest) = OpResult d r"
    and "\<not> isWireOrReg (getOp ir d)" and "opKind (getOp ir d) \<noteq> InstanceOp"
    and "opKind (getOp ir d) \<noteq> MemOp"
  shows "visitConnectLike ir connect st
     = Some (st\<lparr>emittedErrors := emittedErrors st @
           map (\<lambda>_. (connect, ''connectlike operation unhandled by IMConstProp''))
             (filter (\<lambda>leaf. \<not> isUnknown (getExtendedLatticeValue st
                         (getSubField (getFieldRefFromValue ir src) (fst leaf))
                         (getPassiveType (snd leaf)) False))
                (foreachFIRRTLGroundType
                   (BaseType (case destTypeFIRRTL of RefType t \<Rightarrow> t | BaseType t \<Rightarrow> t))))\<rparr>)"
  using assms
  by (simp add: visitConnectLike_def Let_def fold_propagate_unhandled)

theorem visitConnectLike_unhandled_destination_witness:
  "getOperands (getOp nodeIR 2) = OpResult 1 0 # OpResult 0 0 # []
   \<and> getType nodeIR (OpResult 1 0) = FIRRTL (BaseType (UIntType (Some 8)))
   \<and> fst (getFieldRefFromValue nodeIR (OpResult 1 0)) = OpResult 1 0
   \<and> \<not> isWireOrReg (getOp nodeIR 1) \<and> opKind (getOp nodeIR 1) \<noteq> InstanceOp
   \<and> opKind (getOp nodeIR 1) \<noteq> MemOp
   \<and> visitConnectLike nodeIR 2 nodePass
       = Some (nodePass\<lparr>emittedErrors :=
                 [(2, ''connectlike operation unhandled by IMConstProp'')]\<rparr>)"
  using visitConnectLike_unhandled_destination
          [of nodeIR 2 "OpResult 1 0" "OpResult 0 0" "[]" "BaseType (UIntType (Some 8))" 1 0
              nodePass]
  by (simp add: nodeIR_def nodePass_def mkIR_def mkOp_def uint8_def isWireOrReg_def
        foreachFIRRTLGroundType_def getExtendedLatticeValue_def getSubField_def emptyPass_def)

text \<open>
  The claim C8 as stated fails on both counts. After the connect of \<open>nodeIR\<close> has been
  visited and diagnosed, the destination has no lattice entry and the source is still the
  constant 3; neither is Overdefined. And when the connect is visited while its source is
  still Unknown (the fresh pass state), there is no diagnostic.
\<close>

theorem visitConnectLike_unhandled_counterexample:
  "map_option (\<lambda>st. (emittedErrors st, latticeValues st (OpResult 1 0, 0),
                      latticeValues st (OpResult 0 0, 0)))
     (visitConnectLike nodeIR 2 nodePass)
   = Some ([(2, ''connectlike operation unhandled by IMConstProp'')], None,
           Some (Constant (IntegerAttr (lit8 3))))
   \<and> map_option (\<lambda>st. (emittedErrors st, latticeValues st (OpResult 1 0, 0),
                        latticeValues st (OpResult 0 0, 0)))
       (visitConnectLike nodeIR 2 emptyPass)
     = Some ([], None, None)"
  by (simp add: nodeIR_def nodePass_def mkIR_def mkOp_def uint8_def visitConnectLike_def
        foreachFIRRTLGroundType_def propagateElementLattice_def getExtendedLatticeValue_def
        getSubField_def isWireOrReg_def emptyPass_def)


subsection \<open>Liveness: pending input ports of instances\<close>

lemma markAlive_fields [simp]:
  "liveInstances (markAlive v st) = liveInstances st"
  "lazyLiveInputPorts (markAlive v st) = lazyLiveInputPorts st"
  "resultPortToInstanceResultMappingDCE (markAlive v st) = resultPortToInstanceResultMappingDCE st"
  "liveValues (markAlive v st) = insert v (liveValues st)"
  by (auto simp: markAlive_def)

lemma markBlockUndeletable_fields [simp]:
  "liveInstances (markBlockUndeletable b st) = liveInstances st"
  "lazyLiveInputPorts (markBlockUndeletable b st) = lazyLiveInputPorts st"
  "resultPortToInstanceResultMappingDCE (markBlockUndeletable b st) = resultPortToInstanceResultMappingDCE st"
  "liveValues (markBlockUndeletable b st) = liveValues st"
  by (auto simp: markBlockUndeletable_def)

lemma markAliveInstance_fields [simp]:
  "lazyLiveInputPorts (markAliveInstance ir i st) = lazyLiveInputPorts st"
  "liveValues (markAliveInstance ir i st) = liveValues st"
  by (auto simp: markAliveInstance_def)

lemma fold_markAlive_fields [simp]:
  "liveInstances (fold markAlive vs st) = liveInstances st"
  "lazyLiveInputPorts (fold markAlive vs st) = lazyLiveInputPorts st"
  "resultPortToInstanceResultMappingDCE (fold markAlive vs st) = resultPortToInstanceResultMappingDCE st"
  "liveValues (fold markAlive vs st) = set vs \<union> liveValues st"
  by (induction vs arbitrary: st) auto

lemma fold_markAlive_of_fields [simp]:
  "liveInstances (fold (\<lambda>x. markAlive (g x)) xs st) = liveInstances st"
  "lazyLiveInputPorts (fold (\<lambda>x. markAlive (g x)) xs st) = lazyLiveInputPorts st"
  by (induction xs arbitrary: st) auto

text \<open>The initial scan of the blocks leaves the pending lists as they are.\<close>

lemma markDeclaration_lazy:
  "markDeclaration ir opId st = Some st' \<Longrightarrow> lazyLiveInputPorts st' = lazyLiveInputPorts st"
  by (auto simp: markDeclaration_def split: if_splits)

lemma markUnknownSideEffectOp_lazy:
  "lazyLiveInputPorts (markUnknownSideEffectOp ir opId st) = lazyLiveInputPorts st"
  by (simp add: markUnknownSideEffectOp_def)

lemma fold_mapping_lazy:
  "lazyLiveInputPorts (fold (\<lambda>x s. s\<lparr>resultPortToInstanceResultMappingDCE := F x s\<rparr>) xs st)
     = lazyLiveInputPorts st"
  by (induction xs arbitrary: st) auto

lemma markInstanceOpDCE_lazy:
  assumes "markInstanceOpDCE ir markBlock instance st = Some st'"
    and "\<And>b s s'. markBlock b s = Some s' \<Longrightarrow> lazyLiveInputPorts s' = lazyLiveInputPorts s"
  shows "lazyLiveInputPorts st' = lazyLiveInputPorts st"
proof (cases "getReferencedModule ir instance")
  case (FExtModuleOp ds)
  with assms(1) obtain s1 where
    loop: "forEachM (\<lambda>resultNo s.
                     case getPortDirection ir (FExtModuleOp ds) resultNo of
                       None \<Rightarrow> None
                     | Some Out \<Rightarrow> Some s
                     | Some In \<Rightarrow> Some (markAlive (OpResult instance resultNo) s))
                  [0 ..< getNumResults (getOp ir instance)] st = Some s1"
    and st': "st' = markAliveInstance ir instance s1"
    by (auto simp: markInstanceOpDCE_def split: option.splits)
  have "lazyLiveInputPorts s1 = lazyLiveInputPorts st"
    by (rule forEachM_invariant [OF loop, where P = "\<lambda>s. lazyLiveInputPorts s = lazyLiveInputPorts st"])
       (auto split: option.splits Direction.splits)
  with st' show ?thesis by simp
next
  case (FModuleOp fModule)
  with assms(1) obtain st1 where mb: "markBlock fModule st = Some st1"
    by (auto simp: markInstanceOpDCE_def split: option.splits)
  have "lazyLiveInputPorts st' = lazyLiveInputPorts st1"
    using assms(1) FModuleOp mb
    by (auto simp: markInstanceOpDCE_def Let_def fold_mapping_lazy split: option.splits)
  with assms(2) [OF mb] show ?thesis by simp
qed

lemma markOpDCE_lazy:
  assumes "markOpDCE ir markBlock opId st = Some st'"
    and "\<And>b s s'. markBlock b s = Some s' \<Longrightarrow> lazyLiveInputPorts s' = lazyLiveInputPorts s"
  shows "lazyLiveInputPorts st' = lazyLiveInputPorts st"
  using assms(1)
  by (auto simp: markOpDCE_def markUnknownSideEffectOp_lazy split: if_splits
           dest: markDeclaration_lazy markInstanceOpDCE_lazy [OF _ assms(2)])

lemma markBlockExecutableDCE_lazy:
  "markBlockExecutableDCE ir depth block st = Some st' \<Longrightarrow>
   lazyLiveInputPorts st' = lazyLiveInputPorts st"
proof (induction depth arbitrary: block st st')
  case 0
  then show ?case by (simp split: if_splits)
next
  case (Suc depth)
  show ?case
  proof (cases "block \<in> executableBlocksDCE st")
    case True
    with Suc.prems show ?thesis by simp
  next
    case False
    define st1 where "st1 = st\<lparr>executableBlocksDCE := insert block (executableBlocksDCE st)\<rparr>"
    define st2 where "st2 = (if isPublic (getModule ir block) \<or> \<not> moduleAnnotationsEmpty (getModule ir block)
                   then markBlockUndeletable block st1 else st1)"
    define st3 where "st3 = fold (\<lambda>(argNo, port) s.
                          if portHasDontTouch port
                          then markBlockUndeletable block (markAlive (BlockArgument block argNo) s)
                          else s)
                    (enumerate 0 (getPorts (getModule ir block))) st2"
    have loop: "forEachM (markOpDCE ir (markBlockExecutableDCE ir depth)) (getBody (getModule ir block)) st3 = Some st'"
      using Suc.prems False
      by (simp only: markBlockExecutableDCE.simps Let_def st1_def st2_def st3_def if_False)
    have "lazyLiveInputPorts st2 = lazyLiveInputPorts st"
      by (simp add: st2_def st1_def)
    then have l3: "lazyLiveInputPorts st3 = lazyLiveInputPorts st"
      unfolding st3_def
      by (intro fold_invariant [where P = "\<lambda>s. lazyLiveInputPorts s = lazyLiveInputPorts st"]) auto
    show ?thesis
      by (rule forEachM_invariant [OF loop, where P = "\<lambda>s. lazyLiveInputPorts s = lazyLiveInputPorts st"])
         (use l3 in \<open>auto dest: markOpDCE_lazy [OF _ Suc.IH]\<close>)
  qed
qed

lemma markPublicModules_lazy:
  assumes "markPublicModules ir depth st = Some st'"
  shows "lazyLiveInputPorts st' = lazyLiveInputPorts st"
  by (rule forEachM_invariant [OF assms [unfolded markPublicModules_def],
         where P = "\<lambda>s. lazyLiveInputPorts s = lazyLiveInputPorts st"])
     (auto split: if_splits option.splits dest: markBlockExecutableDCE_lazy)


lemma livenessExtends_refl: "livenessExtends st st"
  by (simp add: livenessExtends_def)

lemma livenessExtends_trans: "livenessExtends a b \<Longrightarrow> livenessExtends b c \<Longrightarrow> livenessExtends a c"
  by (auto simp: livenessExtends_def)

lemma livenessExtends_markAlive: "livenessExtends st (markAlive v st)"
  by (auto simp: livenessExtends_def)

lemma livenessExtends_fold_markAlive: "livenessExtends st (fold markAlive vs st)"
  by (auto simp: livenessExtends_def)

lemma livenessExtends_pendingFlushed: "livenessExtends st st' \<Longrightarrow> pendingFlushed st \<Longrightarrow> pendingFlushed st'"
  by (auto simp: livenessExtends_def pendingFlushed_def)

lemma visitUser_livenessExtends: "visitUser ir u st = Some st' \<Longrightarrow> livenessExtends st st'"
  by (auto simp: visitUser_def visitConnect_def visitSubelement_def livenessExtends_refl livenessExtends_markAlive
           split: if_splits list.splits)

lemma visitUsers_livenessExtends:
  assumes "forEachM (visitUser ir) us st = Some st'"
  shows "livenessExtends st st'"
  by (rule forEachM_invariant [OF assms, where P = "livenessExtends st"])
     (auto intro: livenessExtends_refl livenessExtends_trans dest: visitUser_livenessExtends)

lemma propagateToInstance_pendingFlushed:
  "propagateToInstance ir u s = Some s' \<Longrightarrow> pendingFlushed s \<Longrightarrow> pendingFlushed s'"
  by (auto simp: propagateToInstance_def pendingFlushed_def split: Value.splits if_splits; blast)

lemma propagateToInstance_liveInstances:
  "propagateToInstance ir u s = Some s' \<Longrightarrow> liveInstances s' = liveInstances s"
  by (auto simp: propagateToInstance_def split: Value.splits if_splits)

lemma propagateToInstance_queue:
  "propagateToInstance ir (OpResult instance r) s = Some s' \<Longrightarrow> instance \<notin> liveInstances s \<Longrightarrow>
   OpResult instance r \<in> set (lazyLiveInputPorts s' instance)"
  by (auto simp: propagateToInstance_def split: if_splits)

lemma propagateToInstance_alive:
  "propagateToInstance ir (OpResult instance r) s = Some s' \<Longrightarrow> instance \<in> liveInstances s \<Longrightarrow>
   OpResult instance r \<in> liveValues s'"
  by (auto simp: propagateToInstance_def split: if_splits)

lemma propagateToInstance_mono:
  "propagateToInstance ir u s = Some s' \<Longrightarrow>
   set (lazyLiveInputPorts s i) \<subseteq> set (lazyLiveInputPorts s' i) \<and> liveValues s \<subseteq> liveValues s'"
  by (auto simp: propagateToInstance_def split: Value.splits if_splits)

lemma visitValue_keeps_pendingFlushed:
  assumes "visitValue ir value st = Some st'" and "pendingFlushed st"
  shows "pendingFlushed st'"
proof -
  from assms(1) obtain st1 where users: "forEachM (visitUser ir) (getUsers ir value) st = Some st1"
    by (auto simp: visitValue_def split: if_splits option.splits)
  have f1: "pendingFlushed st1"
    using livenessExtends_pendingFlushed [OF visitUsers_livenessExtends [OF users] assms(2)] .
  show ?thesis
  proof (cases "value")
    case (BlockArgument module argNumber)
    show ?thesis
    proof (cases "getPortDirection ir (FModuleOp module) argNumber")
      case None
      with assms(1) users BlockArgument show ?thesis
        by (simp add: visitValue_def split: if_splits)
    next
      case (Some d)
      show ?thesis
      proof (cases d)
        case Out
        with assms(1) users BlockArgument Some f1 show ?thesis
          by (simp add: visitValue_def split: if_splits)
      next
        case In
        with assms(1) users BlockArgument Some have
          loop: "forEachM (propagateToInstance ir) (resultPortToInstanceResultMappingDCE st1 value) st1 = Some st'"
          by (simp add: visitValue_def split: if_splits)
        show ?thesis
          by (rule forEachM_invariant [OF loop, where P = pendingFlushed])
             (use f1 in \<open>auto dest: propagateToInstance_pendingFlushed\<close>)
      qed
    qed
  next
    case (OpResult opId resultNumber)
    show ?thesis
    proof (cases "opKind (getOp ir opId) = InstanceOp")
      case False
      with assms(1) users OpResult have "livenessExtends st1 st'"
        by (auto simp: visitValue_def livenessExtends_fold_markAlive split: if_splits)
      with f1 show ?thesis using livenessExtends_pendingFlushed by blast
    next
      case True
      show ?thesis
      proof (cases "getReferencedModule ir opId")
        case (FExtModuleOp ds)
        with assms(1) users OpResult True f1 show ?thesis
          by (simp add: visitValue_def split: if_splits)
      next
        case (FModuleOp module)
        show ?thesis
        proof (cases "getPortDirection ir (FModuleOp module) resultNumber")
          case None
          with assms(1) users OpResult True FModuleOp show ?thesis
            by (simp add: visitValue_def split: if_splits)
        next
          case (Some d)
          show ?thesis
          proof (cases d)
            case In
            with assms(1) users OpResult True FModuleOp Some f1 show ?thesis
              by (simp add: visitValue_def split: if_splits)
          next
            case Out
            define st2 where "st2 = (if opId \<notin> liveInstances st1
                                         then fold markAlive (lazyLiveInputPorts st1 opId)
                                                (st1\<lparr>liveInstances :=
                                                       insert opId (liveInstances st1)\<rparr>)
                                         else st1)"
            have st': "st' = markAlive (BlockArgument module resultNumber) st2"
              using assms(1) users OpResult True FModuleOp Some Out
              by (simp add: visitValue_def st2_def Let_def split: if_splits)
            have "pendingFlushed st2"
              using f1 by (auto simp: st2_def pendingFlushed_def)
            then show ?thesis
              unfolding st' by (rule livenessExtends_pendingFlushed [OF livenessExtends_markAlive])
          qed
        qed
      qed
    qed
  qed
qed

lemma visitValues_keep_pendingFlushed:
  "visitValues ir n st = Some st' \<Longrightarrow> pendingFlushed st \<Longrightarrow> pendingFlushed st'"
proof (induction n arbitrary: st)
  case 0
  then show ?case by simp
next
  case (Suc n)
  show ?case
  proof (cases "valueWorklist st = []")
    case True
    with Suc.prems show ?thesis by simp
  next
    case False
    with Suc.prems(1) obtain s1 where
      v: "visitValue ir (last (valueWorklist st)) (st\<lparr>valueWorklist := butlast (valueWorklist st)\<rparr>) = Some s1"
      and rest: "visitValues ir n s1 = Some st'"
      by (auto split: option.splits)
    have "pendingFlushed (st\<lparr>valueWorklist := butlast (valueWorklist st)\<rparr>)"
      using Suc.prems(2) by (simp add: pendingFlushed_def)
    from visitValue_keeps_pendingFlushed [OF v this] rest show ?thesis by (rule Suc.IH [rotated])
  qed
qed


lemma visitValue_queues:
  assumes visit: "visitValue ir (BlockArgument module argNumber) st = Some st'"
    and dir: "getPortDirection ir (FModuleOp module) argNumber = Some In"
    and site: "OpResult instance r
                 \<in> set (resultPortToInstanceResultMappingDCE st (BlockArgument module argNumber))"
    and dead: "instance \<notin> liveInstances st"
  shows "OpResult instance r \<in> set (lazyLiveInputPorts st' instance)"
proof -
  from visit obtain st1 where
    users: "forEachM (visitUser ir) (getUsers ir (BlockArgument module argNumber)) st = Some st1"
    by (auto simp: visitValue_def split: if_splits option.splits)
  have ext: "livenessExtends st st1"
    by (rule visitUsers_livenessExtends [OF users])
  from visit users dir have
    loop: "forEachM (propagateToInstance ir)
             (resultPortToInstanceResultMappingDCE st1 (BlockArgument module argNumber)) st1
           = Some st'"
    by (simp add: visitValue_def split: if_splits)
  have mem: "OpResult instance r
      \<in> set (resultPortToInstanceResultMappingDCE st1 (BlockArgument module argNumber))"
    using site ext by (simp add: livenessExtends_def)
  have dead1: "liveInstances st1 = liveInstances st"
    using ext by (simp add: livenessExtends_def)
  show ?thesis
  proof (rule forEachM_establishes [OF loop mem,
           where I = "\<lambda>s. liveInstances s = liveInstances st"
             and Q = "\<lambda>s. OpResult instance r \<in> set (lazyLiveInputPorts s instance)"])
    show "liveInstances st1 = liveInstances st" by (rule dead1)
  next
    fix y s s'
    assume "liveInstances s = liveInstances st" "propagateToInstance ir y s = Some s'"
    then show "liveInstances s' = liveInstances st"
      by (simp add: propagateToInstance_liveInstances)
  next
    fix s s'
    assume "liveInstances s = liveInstances st"
      "propagateToInstance ir (OpResult instance r) s = Some s'"
    then show "OpResult instance r \<in> set (lazyLiveInputPorts s' instance)"
      using dead by (auto intro: propagateToInstance_queue)
  next
    fix y s s'
    assume "OpResult instance r \<in> set (lazyLiveInputPorts s instance)"
      "propagateToInstance ir y s = Some s'"
    then show "OpResult instance r \<in> set (lazyLiveInputPorts s' instance)"
      using propagateToInstance_mono by blast
  qed
qed

text \<open>
  C6. In every state the liveness fixpoint reaches (the seeding of the public modules,
  then any number of iterations of the worklist loop), an alive input port visited next
  is queued in the pending list of every instantiation site whose instance is not known
  alive, and every input port queued for an instance that is known alive is alive: no
  instance becomes alive without its pending list being flushed.
\<close>

theorem pending_input_ports_flushed:
  assumes seed: "markPublicModules ir depth emptyDCE = Some st0"
    and run: "visitValues ir n st0 = Some st"
  shows "(\<forall>instance \<in> liveInstances st.
            set (lazyLiveInputPorts st instance) \<subseteq> liveValues st)
         \<and> (\<forall>module argNumber instance r st'.
               visitValue ir (BlockArgument module argNumber)
                 (st\<lparr>valueWorklist := butlast (valueWorklist st)\<rparr>) = Some st'
               \<and> getPortDirection ir (FModuleOp module) argNumber = Some In
               \<and> OpResult instance r
                   \<in> set (resultPortToInstanceResultMappingDCE st
                            (BlockArgument module argNumber))
               \<and> instance \<notin> liveInstances st
               \<longrightarrow> OpResult instance r \<in> set (lazyLiveInputPorts st' instance))"
proof -
  have "lazyLiveInputPorts st0 = (\<lambda>_. [])"
    using markPublicModules_lazy [OF seed] by (simp add: emptyDCE_def)
  then have "pendingFlushed st0"
    by (simp add: pendingFlushed_def)
  then have "pendingFlushed st"
    by (rule visitValues_keep_pendingFlushed [OF run])
  then have flushed: "\<forall>instance \<in> liveInstances st.
      set (lazyLiveInputPorts st instance) \<subseteq> liveValues st"
    by (simp add: pendingFlushed_def)
  have queue: "OpResult i r \<in> set (lazyLiveInputPorts s' i)"
    if "visitValue ir (BlockArgument m a)
          (st\<lparr>valueWorklist := butlast (valueWorklist st)\<rparr>) = Some s'"
      and "getPortDirection ir (FModuleOp m) a = Some In"
      and "OpResult i r \<in> set (resultPortToInstanceResultMappingDCE st (BlockArgument m a))"
      and "i \<notin> liveInstances st"
    for m a i r s'
    using visitValue_queues [OF that(1) that(2)] that(3,4) by simp
  from flushed queue show ?thesis by blast
qed

theorem pending_input_ports_flushed_witness:
  "\<exists>st0 st. markPublicModules twoSitesIR 2 emptyDCE = Some st0
     \<and> visitValues twoSitesIR 12 st0 = Some st
     \<and> 2 \<in> liveInstances st \<and> lazyLiveInputPorts st 2 = [OpResult 2 0]
     \<and> (\<forall>instance \<in> liveInstances st.
           set (lazyLiveInputPorts st instance) \<subseteq> liveValues st)"
proof -
  have run: "map_option (\<lambda>st. (2 \<in> liveInstances st, lazyLiveInputPorts st 2))
       (Option.bind (markPublicModules twoSitesIR 2 emptyDCE) (visitValues twoSitesIR 12))
     = Some (True, [OpResult 2 0])"
    by code_simp
  then obtain st0 st where seed: "markPublicModules twoSitesIR 2 emptyDCE = Some st0"
    and loop: "visitValues twoSitesIR 12 st0 = Some st"
    and obs: "2 \<in> liveInstances st" "lazyLiveInputPorts st 2 = [OpResult 2 0]"
    by (auto simp: bind_eq_Some_conv)
  from pending_input_ports_flushed [OF seed loop] seed loop obs show ?thesis
    by blast
qed

text \<open>The run behind the witness: after four visits the input port of instance 2 is
  pending and the instance is not known alive; when the worklist is empty the instance is
  alive and so is the port.\<close>

lemma twoSites_pending_then_flushed:
  "map_option (\<lambda>st. (valueWorklist st, 2 \<in> liveInstances st, lazyLiveInputPorts st 2,
                      OpResult 2 0 \<in> liveValues st))
     (Option.bind (markPublicModules twoSitesIR 2 emptyDCE) (visitValues twoSitesIR 4))
   = Some ([BlockArgument 0 0, OpResult 3 0], False, [OpResult 2 0], False)
   \<and> map_option (\<lambda>st. (valueWorklist st, 2 \<in> liveInstances st, lazyLiveInputPorts st 2,
                      OpResult 2 0 \<in> liveValues st))
     (Option.bind (markPublicModules twoSitesIR 2 emptyDCE) (visitValues twoSitesIR 12))
   = Some ([], True, [OpResult 2 0], True)"
  by code_simp

subsection \<open>Order of the rewriting phases of IMDeadCodeElim\<close>

lemma fold_append_call: "fold (\<lambda>x calls. calls @ [f x]) xs calls0 = calls0 @ map f xs"
  by (induction xs arbitrary: calls0) simp_all

text \<open>
  C7, as the code has it. Whenever \<^verbatim>\<open>runOnOperation\<close> completes, its rewriting calls
  are, in this order: \<^verbatim>\<open>forwardConstantOutputPort\<close> for the modules in post order;
  (after the fixpoint) \<^verbatim>\<open>rewriteModuleSignature\<close> for every module of the circuit; then
  \<^verbatim>\<open>rewriteModuleBody\<close> for every module; then \<^verbatim>\<open>eraseEmptyModule\<close> for the modules in
  post order. The signature phase comes before the body phase, not after it.
\<close>

theorem runOnOperationDCE_phase_order:
  "runOnOperationDCE ir fuel = Some (calls, st) \<Longrightarrow>
   calls = map ForwardConstantOutputPort (postOrderModules ir)
           @ map RewriteModuleSignature (circuitModules ir)
           @ map RewriteModuleBody (circuitModules ir)
           @ map EraseEmptyModule (postOrderModules ir)"
  by (auto simp: runOnOperationDCE_def Let_def fold_append_call
           split: option.splits if_splits)

theorem runOnOperationDCE_phase_order_witness:
  "\<exists>st. runOnOperationDCE twoSitesIR 20
          = Some ([ForwardConstantOutputPort 1, ForwardConstantOutputPort 0,
                   RewriteModuleSignature 0, RewriteModuleSignature 1,
                   RewriteModuleBody 0, RewriteModuleBody 1,
                   EraseEmptyModule 1, EraseEmptyModule 0], st)"
proof -
  have "runOnOperationDCE twoSitesIR 20 \<noteq> None"
    by code_simp
  then obtain calls st where r: "runOnOperationDCE twoSitesIR 20 = Some (calls, st)"
    by auto
  from runOnOperationDCE_phase_order [OF r] r show ?thesis
    by (simp add: twoSitesIR_def)
qed

text \<open>
  The claim C7 as stated fails: on \<open>twoSitesIR\<close> both calls of
  \<^verbatim>\<open>rewriteModuleSignature\<close> come before the first call of \<^verbatim>\<open>rewriteModuleBody\<close>.
\<close>

theorem runOnOperationDCE_signature_first_counterexample:
  "map_option fst (runOnOperationDCE twoSitesIR 20)
   = Some [ForwardConstantOutputPort 1, ForwardConstantOutputPort 0,
           RewriteModuleSignature 0, RewriteModuleSignature 1,
           RewriteModuleBody 0, RewriteModuleBody 1,
           EraseEmptyModule 1, EraseEmptyModule 0]"
  by code_simp


subsection \<open>The fixpoint on the circuit with two instantiation sites\<close>

lemma propagate_numeral:
  "propagate ir (numeral k) st = propagate ir (Suc (pred_numeral k)) st"
  by (simp add: numeral_eq_Suc)

lemma markBlockExecutable_numeral:
  "markBlockExecutable ir (numeral k) b st = markBlockExecutable ir (Suc (pred_numeral k)) b st"
  by (simp add: numeral_eq_Suc)


lemmas scan_simps =
  markPublicPorts_def markOp_def markInstanceOp_def markConstantOp_def markWireOrRegOp_def
  indexOperands_def indexOperand_def addUser_def
  mergeLatticeValue_def mergeLatticeValueValue_def mergeLatticeValueKey_def
  markOverdefinedValue_def markOverdefined_def latticeValuesAt_def mergeIn_def getSubField_def
  foreachFIRRTLGroundType_def getPortDirection_def isWireOrReg_def emptyPass_def Let_def
  enumerate_eq_zip upt_rec markBlockExecutable_numeral

lemmas visit_simps =
  visitChanged_def visitOperation_def visitConnectLike_def propagateElementLattice_def
  getExtendedLatticeValue_def mergeLatticeValue_def latticeValuesAt_def mergeIn_def
  getSubField_def foreachFIRRTLGroundType_def isWireOrReg_def Let_def


subsection \<open>Two instantiation sites driving different literals\<close>





subsection \<open>Overdefined is final\<close>

lemma scans_keepsOverdefined:
  assumes "scans ir s s'" and "entryOf s k = Overdefined"
  shows "entryOf s' k = Overdefined"
proof -
  from assms(1) have "latticeLe (entryOf s k) (entryOf s' k)"
    unfolding scans_def risesOn_def by blast
  with assms(2) show ?thesis by simp
qed

lemma visitChanged_keepsOverdefined:
  assumes single: "\<And>opId cs rs. opFold ir opId cs = Some rs
                     \<Longrightarrow> getNumResults (getOp ir opId) \<le> 1"
    and v: "visitChanged ir st = Some st'"
  shows "keepsOverdefined st st'"
proof -
  let ?st1 = "st\<lparr>changedLatticeValueWorklist := butlast (changedLatticeValueWorklist st)\<rparr>"
  let ?f = "\<lambda>user s. if getBlock (getOp ir user) \<in> executableBlocks s
                       then visitOperation ir user s else Some s"
  from v have run: "forEachM ?f (fieldRefToUsers ?st1 (last (changedLatticeValueWorklist st))) ?st1
                      = Some st'"
    by (simp add: visitChanged_def Let_def)
  have "keepsOverdefined ?st1 st'"
  proof (rule forEachM_rel [where R = keepsOverdefined, OF _ _ _ run])
    show "keepsOverdefined s s" for s by simp
    show "keepsOverdefined a c" if "keepsOverdefined a b" "keepsOverdefined b c" for a b c
      using that by (rule keepsOverdefined_trans)
    show "keepsOverdefined s s'" if "?f x s = Some s'" for x s s'
      using that
      by (auto split: if_splits intro: visitOperation_keepsOverdefined single)
  qed
  then show ?thesis by (simp add: keepsOverdefined_def)
qed

lemma propagate_keepsOverdefined:
  assumes single: "\<And>opId cs rs. opFold ir opId cs = Some rs
                     \<Longrightarrow> getNumResults (getOp ir opId) \<le> 1"
    and p: "propagate ir n st = Some st'"
  shows "keepsOverdefined st st'"
  using p
proof (induction n arbitrary: st)
  case 0
  then show ?case by simp
next
  case (Suc n)
  show ?case
  proof (cases "changedLatticeValueWorklist st = []")
    case True
    with Suc.prems show ?thesis by simp
  next
    case False
    with Suc.prems obtain st2 where v: "visitChanged ir st = Some st2"
      and r: "propagate ir n st2 = Some st'"
      by (auto split: option.splits)
    have "keepsOverdefined st st2"
      by (rule visitChanged_keepsOverdefined [OF _ v]) (rule single)
    with Suc.IH [OF r] show ?thesis by (blast intro: keepsOverdefined_trans)
  qed
qed

lemmas fold_simps =
  foldIR_def foldOp_def foldModule_def foldHook_def mkOp_def uint8_def lit8_def
  getResults_def isOverdefinedKey_def adoptFoldResult_def setLatticeValue_def
  upt_rec enumerate_eq_zip

text \<open>
  C3. Fold hooks are not in the source files; the operations of the dialect that have
  one are expressions with a single result, and the rewriting of the pass folds no others
  (``We only fold single-result ops and instances in practice''). When the fold hook
  succeeds only for operations with at most one result, an entry that is Overdefined
  stays Overdefined: after any call of \<^verbatim>\<open>mergeLatticeValue\<close>, after the visit of any
  operation (the only caller of \<^verbatim>\<open>setLatticeValue\<close>), at the head of every later
  iteration of the worklist loop and when the loop ends, and after the initial scan.
  \<^verbatim>\<open>mergeLatticeValue\<close> and \<^verbatim>\<open>markOverdefined\<close> never lower an entry, and
  \<^verbatim>\<open>setLatticeValue\<close> is only reached for a result that the early exit of
  \<^verbatim>\<open>visitOperation\<close> has found not to be Overdefined.
\<close>

theorem Overdefined_is_final:
  assumes "\<forall>opId cs rs. opFold ir opId cs = Some rs \<longrightarrow> getNumResults (getOp ir opId) \<le> 1"
    and "latticeValues st k = Some Overdefined"
  shows "latticeValues (mergeLatticeValue key source st) k = Some Overdefined
         \<and> (\<forall>opId st'. visitOperation ir opId st = Some st'
               \<longrightarrow> latticeValues st' k = Some Overdefined)
         \<and> (\<forall>n st'. propagate ir n st = Some st'
               \<longrightarrow> latticeValues st' k = Some Overdefined)
         \<and> (\<forall>depth st'. markPublicPorts ir depth st = Some st'
               \<longrightarrow> latticeValues st' k = Some Overdefined)"
proof -
  from assms(1) have single: "opFold ir opId cs = Some rs
      \<Longrightarrow> getNumResults (getOp ir opId) \<le> 1" for opId cs rs
    by blast
  have keep: "latticeValues st' k = Some Overdefined" if "keepsOverdefined st st'" for st'
    using that assms(2) unfolding keepsOverdefined_def entryOf_Overdefined by blast
  have "keepsOverdefined st (mergeLatticeValue key source st)"
    by (rule merges_keepsOverdefined) (rule merges_mergeLatticeValue)
  moreover have "keepsOverdefined st st'" if "visitOperation ir opId st = Some st'" for opId st'
    by (rule visitOperation_keepsOverdefined [OF that]) (rule single)
  moreover have "keepsOverdefined st st'" if "propagate ir n st = Some st'" for n st'
    by (rule propagate_keepsOverdefined [where ir = ir, OF _ that]) (rule single)
  moreover have "latticeValues st' k = Some Overdefined"
    if "markPublicPorts ir depth st = Some st'" for depth st'
    using scans_keepsOverdefined [OF markPublicPorts_scans [OF that], of k] assms(2)
    by (simp add: entryOf_Overdefined)
  ultimately show ?thesis using keep by blast
qed

theorem Overdefined_is_final_witness:
  "\<exists>st st'. markPublicPorts foldIR 2 emptyPass = Some st
      \<and> latticeValues st (BlockArgument 0 0, 0) = Some Overdefined
      \<and> propagate foldIR 5 st = Some st'
      \<and> changedLatticeValueWorklist st' = []
      \<and> latticeValues st' (OpResult 1 0, 0) = Some (Constant (IntegerAttr (lit8 3)))
      \<and> latticeValues st' (BlockArgument 0 0, 0) = Some Overdefined"
proof -
  have single: "\<forall>opId cs rs. opFold foldIR opId cs = Some rs
                  \<longrightarrow> getNumResults (getOp foldIR opId) \<le> 1"
    by (simp add: foldIR_def foldHook_def foldOp_def mkOp_def)
  have "\<exists>st st'. markPublicPorts foldIR 2 emptyPass = Some st
         \<and> latticeValues st (BlockArgument 0 0, 0) = Some Overdefined
         \<and> propagate foldIR 5 st = Some st'
         \<and> changedLatticeValueWorklist st' = []
         \<and> latticeValues st' (OpResult 1 0, 0) = Some (Constant (IntegerAttr (lit8 3)))"
    apply (simp add: fold_simps scan_simps del: propagate.simps)
    apply (subst propagate_numeral, subst propagate.simps(2),
           simp add: fold_simps visit_simps del: propagate.simps)
    apply (subst propagate_numeral, subst propagate.simps(2),
           simp add: fold_simps visit_simps del: propagate.simps)
    apply (subst propagate_numeral, subst propagate.simps(2),
           simp add: fold_simps visit_simps del: propagate.simps)
    apply (simp add: propagate_numeral)
    done
  then obtain st st' where r: "markPublicPorts foldIR 2 emptyPass = Some st"
    "latticeValues st (BlockArgument 0 0, 0) = Some Overdefined"
    "propagate foldIR 5 st = Some st'"
    "changedLatticeValueWorklist st' = []"
    "latticeValues st' (OpResult 1 0, 0) = Some (Constant (IntegerAttr (lit8 3)))"
    by blast
  from Overdefined_is_final [OF single r(2)] r show ?thesis
    by blast
qed

subsection \<open>A wire that is never driven\<close>










lemma set_insertBefore [simp]: "set (insertBefore new anchor xs) = insert new (set xs)"
  by (induction xs) auto










lemma keepsWire_fields [simp]:
  "keepsWire ir b w fresh (rw\<lparr>numErasedOp := n\<rparr>) = keepsWire ir b w fresh rw"
  "keepsWire ir b w fresh (rw\<lparr>numFoldedOp := n\<rparr>) = keepsWire ir b w fresh rw"
  by (simp_all add: keepsWire_def use_empty_def)














end
